theory Spec2Isabelle
  imports Complex_Main "HOL-Library.Word" "HOL-Library.Log_Nat"
begin

unbundle bit_operations_syntax

chapter \<open>The conversation orchestrator: audio path and session state machine\<close>

section \<open>JavaScript numbers\<close>

text \<open>
  A finite JavaScript number is an IEEE 754 binary64 value, modelled as the rational it
  denotes. Every arithmetic operator of the source computes the exact result and rounds it
  to the nearest binary64 value, ties to even (\<open>round_binary64\<close>): 53 significant bits,
  least exponent \<open>-1022\<close> (below it the spacing stays \<open>2 ^ -1074\<close>). Overflow to
  \<open>Infinity\<close> is outside this model; no operation below can reach it on its inputs
  (sample rates and array lengths are integers below \<open>2 ^ 53\<close>, samples lie in
  \<open>[-32768, 32767]\<close>).
\<close>

definition pow2 :: "int \<Rightarrow> rat" where
  "pow2 e = (if 0 \<le> e then 2 ^ nat e else 1 / 2 ^ nat (- e))"

text \<open>\<open>ilog2 x\<close> is the binary exponent of a positive \<open>x\<close>: \<open>2 ^ ilog2 x \<le> x < 2 ^ (ilog2 x + 1)\<close>.\<close>

definition ilog2 :: "rat \<Rightarrow> int" where
  "ilog2 x = (case quotient_of x of (a, b) \<Rightarrow>
     (let e0 = int (floorlog 2 (nat a)) - int (floorlog 2 (nat b))
      in if pow2 e0 \<le> x then e0 else e0 - 1))"

definition round_half_even :: "rat \<Rightarrow> int" where
  "round_half_even y = (let f = \<lfloor>y\<rfloor>; d = y - of_int f
     in if d < 1 / 2 then f else if 1 / 2 < d then f + 1 else if even f then f else f + 1)"

definition round_binary64 :: "rat \<Rightarrow> rat" where
  "round_binary64 x = (if x = 0 then 0 else
     (let e = max (ilog2 \<bar>x\<bar>) (- 1022); q = pow2 (e - 52)
      in sgn x * of_int (round_half_even (\<bar>x\<bar> / q)) * q))"

text \<open>The spacing of binary64 values around a positive \<open>x\<close>.\<close>

definition quantum :: "rat \<Rightarrow> rat" where
  "quantum x = pow2 (max (ilog2 x) (- 1022) - 52)"

definition js_add :: "rat \<Rightarrow> rat \<Rightarrow> rat" where
  "js_add a b = round_binary64 (a + b)"

definition js_sub :: "rat \<Rightarrow> rat \<Rightarrow> rat" where
  "js_sub a b = round_binary64 (a - b)"

definition js_mul :: "rat \<Rightarrow> rat \<Rightarrow> rat" where
  "js_mul a b = round_binary64 (a * b)"

text \<open>Division by a non-zero number; the callers branch on a zero divisor themselves.\<close>

definition js_div :: "rat \<Rightarrow> rat \<Rightarrow> rat" where
  "js_div a b = round_binary64 (a / b)"

text \<open>\<open>Math.round\<close>: the nearest integer, a tie going up.\<close>

definition math_round :: "rat \<Rightarrow> int" where
  "math_round x = \<lfloor>x + 1 / 2\<rfloor>"

text \<open>Truncation towards zero, the first step of every conversion to an integer type.\<close>

definition js_truncate :: "rat \<Rightarrow> int" where
  "js_truncate x = (if x < 0 then - \<lfloor>- x\<rfloor> else \<lfloor>x\<rfloor>)"

text \<open>
  A number as a typed array cell or a \<open>DataView\<close> holds it: finite, infinite or not a
  number.
\<close>

datatype js_number = Finite rat | PosInfinity | NegInfinity | NaN

text \<open>
  Storing into an \<open>Int16Array\<close> cell and \<open>DataView.setInt16\<close> convert with ToInt16:
  \<open>NaN\<close> and the infinities become 0, anything else is truncated and reduced modulo
  \<open>2 ^ 16\<close>.
\<close>

definition to_int16 :: "js_number \<Rightarrow> 16 word" where
  "to_int16 v = (case v of Finite x \<Rightarrow> word_of_int (js_truncate x) | _ \<Rightarrow> 0)"

text \<open>
  What the modelled code throws or rejects with: the \<open>DOMException\<close> of \<open>atob\<close>, a
  \<open>RangeError\<close>, an \<open>Error\<close> with its message, or the event object a socket's error
  handler passes on.
\<close>

datatype exn = InvalidCharacterError | RangeError | JsError string | ErrorEvent

section \<open>Base64 as the platform's \<open>atob\<close> and \<open>btoa\<close> implement it\<close>

text \<open>
  \<open>atob\<close> and \<open>btoa\<close> are platform functions; they follow the forgiving-base64 decode
  and the base64 encode of the HTML and Infra standards. A binary string is the list of
  its code units, all below 256, that is a list of bytes.
\<close>

definition base64_alphabet :: string where
  "base64_alphabet = ''ABCDEFGHIJKLMNOPQRSTUVWXYZabcdefghijklmnopqrstuvwxyz0123456789+/''"

fun index_of :: "'a \<Rightarrow> 'a list \<Rightarrow> nat option" where
  "index_of c [] = None"
| "index_of c (x # xs) = (if c = x then Some 0 else map_option Suc (index_of c xs))"

definition base64_value :: "char \<Rightarrow> nat option" where
  "base64_value c = index_of c base64_alphabet"

definition is_ascii_whitespace :: "char \<Rightarrow> bool" where
  "is_ascii_whitespace c = (c \<in> set [CHR 0x09, CHR 0x0A, CHR 0x0C, CHR 0x0D, CHR 0x20])"

text \<open>With the length a multiple of four, one or two trailing \<open>=\<close> are removed.\<close>

definition strip_padding :: "string \<Rightarrow> string" where
  "strip_padding s =
     (if length s mod 4 = 0 then
        (case rev s of
           a # b # rest \<Rightarrow>
             (if a = CHR ''='' then (if b = CHR ''='' then rev rest else rev (b # rest)) else s)
         | _ \<Rightarrow> s)
      else s)"

text \<open>
  Four sextets give three bytes; a final group of two gives one byte and a final group of
  three gives two, the surplus bits dropped.
\<close>

fun decode_sextets :: "nat list \<Rightarrow> 8 word list" where
  "decode_sextets (a # b # c # d # rest) =
     (let n = ((a * 64 + b) * 64 + c) * 64 + d
      in of_nat (n div 65536) # of_nat (n div 256 mod 256) # of_nat (n mod 256)
           # decode_sextets rest)"
| "decode_sextets [a, b, c] =
     (let n = (a * 64 + b) * 64 + c
      in [of_nat (n div 1024), of_nat (n div 4 mod 256)])"
| "decode_sextets [a, b] = [of_nat ((a * 64 + b) div 16)]"
| "decode_sextets _ = []"

definition atob :: "string \<Rightarrow> exn + 8 word list" where
  "atob data =
     (let d = strip_padding (filter (\<lambda>c. \<not> is_ascii_whitespace c) data)
      in if length d mod 4 = 1 then Inl InvalidCharacterError
         else if list_ex (\<lambda>c. base64_value c = None) d then Inl InvalidCharacterError
         else Inr (decode_sextets (map (\<lambda>c. the (base64_value c)) d)))"

definition base64_char :: "nat \<Rightarrow> char" where
  "base64_char n = base64_alphabet ! (n mod 64)"

fun encode_bytes :: "8 word list \<Rightarrow> string" where
  "encode_bytes (x # y # z # rest) =
     (let n = (unat x * 256 + unat y) * 256 + unat z
      in base64_char (n div 262144) # base64_char (n div 4096) # base64_char (n div 64)
           # base64_char n # encode_bytes rest)"
| "encode_bytes [x, y] =
     (let n = (unat x * 256 + unat y) * 4
      in [base64_char (n div 4096), base64_char (n div 64), base64_char n, CHR ''=''])"
| "encode_bytes [x] =
     (let n = unat x * 16 in [base64_char (n div 64), base64_char n, CHR ''='', CHR ''=''])"
| "encode_bytes [] = []"

definition btoa :: "8 word list \<Rightarrow> string" where
  "btoa bytes = encode_bytes bytes"

section \<open>AudioResampler (utils/audio-resampler.ts)\<close>

text \<open>Sample rates are numbers of samples per second: non-negative integers.\<close>

record ResamplerConfig =
  sourceSampleRate :: nat
  targetSampleRate :: nat

text \<open>
  \<open>new Int16Array(bytes.buffer)\<close> reads the buffer two bytes per cell in the platform's
  byte order, little-endian on every platform a browser runs on.
\<close>

fun int16_view :: "8 word list \<Rightarrow> 16 word list" where
  "int16_view (lo # hi # rest) = word_cat hi lo # int16_view rest"
| "int16_view _ = []"

text \<open>
  \<open>base64ToPCM16\<close>: an exception of \<open>atob\<close> is logged and rethrown; the
  \<open>Int16Array\<close> constructor throws a \<open>RangeError\<close> on a buffer of odd byte length, from
  inside the same \<open>try\<close>.
\<close>

definition base64ToPCM16 :: "string \<Rightarrow> exn + 16 word list" where
  "base64ToPCM16 base64 =
     (case atob base64 of
        Inl e \<Rightarrow> Inl e
      | Inr bytes \<Rightarrow> if odd (length bytes) then Inl RangeError else Inr (int16_view bytes))"

text \<open>Reading a typed array cell: \<open>undefined\<close> outside the array.\<close>

definition sample_at :: "16 word list \<Rightarrow> int \<Rightarrow> rat option" where
  "sample_at samples i =
     (if 0 \<le> i \<and> i < int (length samples) then Some (of_int (sint (samples ! nat i))) else None)"

text \<open>
  The body of the loop of \<open>resample\<close> at target index \<open>i\<close>. An \<open>undefined\<close> operand
  makes the sum \<open>NaN\<close>, which the array stores as 0.
\<close>

definition interpolate :: "16 word list \<Rightarrow> rat \<Rightarrow> nat \<Rightarrow> 16 word" where
  "interpolate samples ratio i =
     (let sourceIndex = js_mul (of_nat i) ratio;
          index1 = \<lfloor>sourceIndex\<rfloor>;
          index2 = min (index1 + 1) (int (length samples) - 1);
          fraction = js_sub sourceIndex (of_int index1)
      in case (sample_at samples index1, sample_at samples index2) of
           (Some s1, Some s2) \<Rightarrow>
             to_int16 (Finite (of_int (math_round
               (js_add (js_mul s1 (js_sub 1 fraction)) (js_mul s2 fraction)))))
         | _ \<Rightarrow> to_int16 NaN)"

text \<open>
  \<open>new Int16Array(length)\<close> throws a \<open>RangeError\<close> when the buffer cannot be allocated.
  The language refuses a buffer of more than \<open>2 ^ 53 - 1\<close> bytes, that is an
  \<open>Int16Array\<close> of more than \<open>2 ^ 52 - 1\<close> cells; below that an engine refuses what it
  has no memory for. The largest length the platform allocates is therefore a parameter,
  \<open>max_length\<close>, of \<open>resample_on\<close>.
\<close>

definition max_int16_array_length :: nat where
  "max_int16_array_length = 2 ^ 52 - 1"

text \<open>
  \<open>resample\<close>, on a platform that allocates up to \<open>max_length\<close> cells. With equal rates
  the input is returned. Otherwise \<open>ratio = sourceSampleRate / targetSampleRate\<close> and
  \<open>outputLength = Math.floor(samples.length / ratio)\<close>, both divisions rounded. A target
  rate of 0 makes the ratio \<open>Infinity\<close> and the length 0; a source rate of 0 makes the
  ratio 0 and the length \<open>Infinity\<close> (a \<open>RangeError\<close> of the array constructor) or, for an
  empty input, \<open>NaN\<close> (an empty array).
\<close>

definition resample_on :: "nat \<Rightarrow> ResamplerConfig \<Rightarrow> 16 word list \<Rightarrow> exn + 16 word list" where
  "resample_on max_length config samples =
     (if sourceSampleRate config = targetSampleRate config then Inr samples
      else if targetSampleRate config = 0 then Inr []
      else if sourceSampleRate config = 0 then
        (if samples = [] then Inr [] else Inl RangeError)
      else
        (let ratio = js_div (of_nat (sourceSampleRate config)) (of_nat (targetSampleRate config));
             outputLength = nat \<lfloor>js_div (of_nat (length samples)) ratio\<rfloor>
         in if min max_length max_int16_array_length < outputLength then Inl RangeError
            else Inr (map (interpolate samples ratio) [0..<outputLength])))"

text \<open>\<open>resample\<close> where only the language bounds the allocation.\<close>

definition resample :: "ResamplerConfig \<Rightarrow> 16 word list \<Rightarrow> exn + 16 word list" where
  "resample config samples = resample_on max_int16_array_length config samples"

text \<open>\<open>view.setInt16(i * 2, samples[i], true)\<close>: low byte first.\<close>

definition int16_bytes_le :: "16 word \<Rightarrow> 8 word list" where
  "int16_bytes_le v = [ucast v, ucast (drop_bit 8 v)]"

definition pcm16ToUint8Array :: "16 word list \<Rightarrow> 8 word list" where
  "pcm16ToUint8Array samples = concat (map int16_bytes_le samples)"

text \<open>
  \<open>resampleFromBase64\<close>, on a platform that allocates up to \<open>max_length\<close> cells: an
  exception of \<open>base64ToPCM16\<close> or of \<open>resample\<close> propagates to the caller.
\<close>

definition resampleFromBase64_on :: "nat \<Rightarrow> ResamplerConfig \<Rightarrow> string \<Rightarrow> exn + 8 word list" where
  "resampleFromBase64_on max_length config base64Audio =
     (case base64ToPCM16 base64Audio of
        Inl e \<Rightarrow> Inl e
      | Inr pcm16Samples \<Rightarrow>
          (case resample_on max_length config pcm16Samples of
             Inl e \<Rightarrow> Inl e
           | Inr resampled \<Rightarrow> Inr (pcm16ToUint8Array resampled)))"

text \<open>\<open>resampleFromBase64\<close> where only the language bounds the allocation.\<close>

definition resampleFromBase64 :: "ResamplerConfig \<Rightarrow> string \<Rightarrow> exn + 8 word list" where
  "resampleFromBase64 config base64Audio =
     resampleFromBase64_on max_int16_array_length config base64Audio"

definition createAudioResampler :: "nat \<Rightarrow> nat \<Rightarrow> ResamplerConfig" where
  "createAudioResampler src tgt = \<lparr>sourceSampleRate = src, targetSampleRate = tgt\<rparr>"

text \<open>
  Well-formed base64, for stating what \<open>base64ToPCM16\<close> accepts: with ASCII whitespace
  and the padding removed, the text holds only characters of the alphabet and its length
  is not 1 modulo 4. It then encodes \<open>decoded_length\<close> bytes.
\<close>

definition base64_payload :: "string \<Rightarrow> string" where
  "base64_payload data = strip_padding (filter (\<lambda>c. \<not> is_ascii_whitespace c) data)"

definition well_formed_base64 :: "string \<Rightarrow> bool" where
  "well_formed_base64 data =
     (length (base64_payload data) mod 4 \<noteq> 1
      \<and> list_all (\<lambda>c. c \<in> set base64_alphabet) (base64_payload data))"

definition decoded_length :: "string \<Rightarrow> nat" where
  "decoded_length data = length (base64_payload data) * 3 div 4"

section \<open>AudioCapture (services/audio-capture.ts)\<close>

text \<open>
  Console logging is not modelled, and neither are the fields that only feed it
  (\<open>lastVoiceLogTime\<close>, \<open>voiceDetectionCount\<close> here; \<open>audioChunksSent\<close>,
  \<open>lastAudioLogTime\<close> and the instance counter of the avatar client further on). A
  platform object held in a nullable field is modelled by whether the field is set.
\<close>

record AudioCaptureConfig =
  sampleRate :: nat
  channelCount :: nat
  chunkSize :: nat
  voiceActivityThreshold :: rat

record AudioCapture =
  audioContext :: bool
  mediaStream :: bool
  mediaStreamSource :: bool
  processor :: bool
  analyser :: bool
  captureConfig :: AudioCaptureConfig
  isCapturing :: bool
  isMuted :: bool

text \<open>The events an \<open>AudioCapture\<close> emits, with their payloads.\<close>

datatype capture_event =
    AudioEv "8 word list" int bool
  | VoiceDetected
  | Started
  | Stopped
  | CaptureError string

text \<open>\<open>new AudioCapture()\<close>: every option defaulted; \<open>0.01\<close> is the binary64 literal.\<close>

definition new_AudioCapture :: AudioCapture where
  "new_AudioCapture =
     \<lparr>audioContext = False, mediaStream = False, mediaStreamSource = False,
      processor = False, analyser = False,
      captureConfig = \<lparr>sampleRate = 24000, channelCount = 1, chunkSize = 4096,
        voiceActivityThreshold = round_binary64 (1 / 100)\<rparr>,
      isCapturing = False, isMuted = False\<rparr>"

text \<open>
  What one \<open>onaudioprocess\<close> callback reads from the platform: the samples of channel 0
  of the input buffer (a \<open>Float32Array\<close>) and the bytes
  \<open>analyser.getByteTimeDomainData\<close> fills in, \<open>frequencyBinCount\<close> of them.
\<close>

record AudioProcessingEvent =
  channelData :: "js_number list"
  timeDomainData :: "8 word list"

text \<open>
  \<open>detectVoiceActivity\<close> ignores its argument and reads the analyser. \<open>Math.sqrt\<close> is a
  platform function and a parameter here. With an empty buffer the mean is \<open>NaN\<close> and
  the comparison false.
\<close>

definition detectVoiceActivity :: "(rat \<Rightarrow> rat) \<Rightarrow> AudioCapture \<Rightarrow> 8 word list \<Rightarrow> bool" where
  "detectVoiceActivity math_sqrt ac dataArray =
     (if \<not> analyser ac then False
      else
        (let bufferLength = length dataArray;
             sum = foldl (\<lambda>sum d.
                     (let normalized = js_div (js_sub (of_nat (unat d)) 128) 128
                      in js_add sum (js_mul normalized normalized))) 0 dataArray
         in if bufferLength = 0 then False
            else voiceActivityThreshold (captureConfig ac)
                   < math_sqrt (js_div sum (of_nat bufferLength))))"

text \<open>\<open>Math.max(-1, Math.min(1, sample))\<close>; \<open>NaN\<close> stays \<open>NaN\<close>.\<close>

definition clamp_sample :: "js_number \<Rightarrow> js_number" where
  "clamp_sample sample =
     (case sample of
        Finite x \<Rightarrow> Finite (max (- 1) (min 1 x))
      | PosInfinity \<Rightarrow> Finite 1
      | NegInfinity \<Rightarrow> Finite (- 1)
      | NaN \<Rightarrow> NaN)"

text \<open>\<open>sample < 0 ? sample * 0x8000 : sample * 0x7FFF\<close>; a comparison with \<open>NaN\<close> is false.\<close>

definition scale_sample :: "js_number \<Rightarrow> js_number" where
  "scale_sample sample =
     (case sample of
        Finite x \<Rightarrow> Finite (if x < 0 then js_mul x 32768 else js_mul x 32767)
      | PosInfinity \<Rightarrow> PosInfinity
      | NegInfinity \<Rightarrow> NegInfinity
      | NaN \<Rightarrow> NaN)"

text \<open>The body of the loop of \<open>convertToPCM16\<close>: the cell \<open>setInt16\<close> writes for one sample.\<close>

definition quantize_sample :: "js_number \<Rightarrow> 16 word" where
  "quantize_sample sample = to_int16 (scale_sample (clamp_sample sample))"

definition convertToPCM16 :: "js_number list \<Rightarrow> 8 word list" where
  "convertToPCM16 float32Array = concat (map (\<lambda>sample. int16_bytes_le (quantize_sample sample)) float32Array)"

text \<open>
  \<open>processAudio\<close>, the \<open>onaudioprocess\<close> callback: the new state and the events emitted,
  in order. \<open>now\<close> is the reading of \<open>Date.now()\<close>.
\<close>

definition processAudio ::
  "(rat \<Rightarrow> rat) \<Rightarrow> int \<Rightarrow> AudioCapture \<Rightarrow> AudioProcessingEvent \<Rightarrow> AudioCapture \<times> capture_event list" where
  "processAudio math_sqrt now ac event =
     (if \<not> isCapturing ac \<or> \<not> analyser ac then (ac, [])
      else
        (let inputData = channelData event;
             voiceActivity = detectVoiceActivity math_sqrt ac (timeDomainData event);
             pcmData = convertToPCM16 inputData
         in (ac,
             (if \<not> isMuted ac then [AudioEv pcmData now voiceActivity] else [])
             @ (if voiceActivity \<and> \<not> isMuted ac then [VoiceDetected] else []))))"

text \<open>
  \<open>start\<close>. Asking for the microphone ends in one of three ways, decided outside the
  program. A start while capturing throws before the \<open>try\<close>, so no \<open>error\<close> event.
\<close>

datatype microphone_outcome = Granted | Denied string | MicrophoneTimeout

definition capture_start ::
  "microphone_outcome \<Rightarrow> AudioCapture \<Rightarrow> (exn + unit) \<times> AudioCapture \<times> capture_event list" where
  "capture_start mic ac =
     (if isCapturing ac then (Inl (JsError ''Audio capture is already running''), ac, [])
      else
        (case mic of
           Granted \<Rightarrow>
             (Inr (),
              ac\<lparr>mediaStream := True, audioContext := True, mediaStreamSource := True,
                 analyser := True, processor := True, isCapturing := True\<rparr>,
              [Started])
         | Denied msg \<Rightarrow> (Inl (JsError msg), ac, [CaptureError msg])
         | MicrophoneTimeout \<Rightarrow>
             (Inl (JsError ''Microphone access timeout after 10 seconds''), ac,
              [CaptureError ''Microphone access timeout after 10 seconds''])))"

definition capture_stop :: "AudioCapture \<Rightarrow> AudioCapture \<times> capture_event list" where
  "capture_stop ac =
     (ac\<lparr>isCapturing := False, processor := False, analyser := False,
         mediaStreamSource := False, mediaStream := False, audioContext := False\<rparr>,
      [Stopped])"

definition setMuted :: "bool \<Rightarrow> AudioCapture \<Rightarrow> AudioCapture" where
  "setMuted muted ac = ac\<lparr>isMuted := muted\<rparr>"

section \<open>Connection states and status messages (types/websocket.ts)\<close>

datatype ConnectionState =
  Idle | Connecting | Connected | Ready | Active | Ending | ErrorState | Closed

datatype status_category = CatConnection | CatAudio | CatOpenai | CatSimli | CatError | CatUser

datatype status_level = Info | Success | Warning | LevelError

text \<open>The avatar client emits its status messages without a timestamp.\<close>

record StatusUpdateMessage =
  timestamp :: "int option"
  category :: status_category
  message :: string
  level :: status_level

definition status_at :: "int \<Rightarrow> status_category \<Rightarrow> string \<Rightarrow> status_level \<Rightarrow> StatusUpdateMessage" where
  "status_at now c msg l = \<lparr>timestamp = Some now, category = c, message = msg, level = l\<rparr>"

definition status_plain :: "status_category \<Rightarrow> string \<Rightarrow> status_level \<Rightarrow> StatusUpdateMessage" where
  "status_plain c msg l = \<lparr>timestamp = None, category = c, message = msg, level = l\<rparr>"

text \<open>A value is truthy unless it is absent or the empty string; \<open>a || b\<close> on strings.\<close>

definition truthy :: "string option \<Rightarrow> bool" where
  "truthy v = (case v of None \<Rightarrow> False | Some s \<Rightarrow> s \<noteq> [])"

definition js_or :: "string option \<Rightarrow> string option \<Rightarrow> string option" where
  "js_or a b = (if truthy a then a else b)"

text \<open>A number in a template string: its decimal digits.\<close>

fun string_of_nat :: "nat \<Rightarrow> string" where
  "string_of_nat n =
     (if n < 10 then [char_of (48 + n)]
      else string_of_nat (n div 10) @ [char_of (48 + n mod 10)])"

declare string_of_nat.simps [simp del]

section \<open>OpenAIRealtimeClient (services/openai-realtime.ts)\<close>

text \<open>The messages the client sends, by their \<open>type\<close>, with the fields that vary.\<close>

datatype client_message =
    InputAudioBufferAppend string
  | InputAudioBufferCommit
  | ResponseCreate
  | SessionUpdate "string option"

text \<open>The socket: whether \<open>readyState\<close> is \<open>OPEN\<close>, what was sent, whether \<open>close\<close> was called.\<close>

record WebSocket =
  readyStateOpen :: bool
  sentMessages :: "client_message list"
  closeCalled :: bool

record OpenAIRealtimeClient =
  ws :: "WebSocket option"
  apiKey :: string
  model :: string
  instructions :: "string option"
  isConnected :: bool
  realtimeSessionId :: "string option"

datatype openai_event = OaStatus StatusUpdateMessage | OaDisconnected

definition new_OpenAIRealtimeClient :: "string \<Rightarrow> string option \<Rightarrow> OpenAIRealtimeClient" where
  "new_OpenAIRealtimeClient key instr =
     \<lparr>ws = None, apiKey = key, model = ''gpt-4o-realtime-preview-2024-10-01'',
      instructions = instr, isConnected = False, realtimeSessionId = None\<rparr>"

definition sendMessage :: "client_message \<Rightarrow> OpenAIRealtimeClient \<Rightarrow> OpenAIRealtimeClient" where
  "sendMessage msg c =
     (case ws c of
        Some w \<Rightarrow>
          (if readyStateOpen w then c\<lparr>ws := Some (w\<lparr>sentMessages := sentMessages w @ [msg]\<rparr>)\<rparr>
           else c)
      | None \<Rightarrow> c)"

definition openai_sendAudioData :: "8 word list \<Rightarrow> OpenAIRealtimeClient \<Rightarrow> OpenAIRealtimeClient" where
  "openai_sendAudioData audioData c =
     (if \<not> isConnected c \<or> ws c = None \<or> \<not> readyStateOpen (the (ws c)) then c
      else sendMessage (InputAudioBufferAppend (btoa audioData)) c)"

definition updateSession :: "string option \<Rightarrow> OpenAIRealtimeClient \<Rightarrow> OpenAIRealtimeClient" where
  "updateSession instr c = sendMessage (SessionUpdate (js_or instr (instructions c))) c"

definition openai_disconnect :: "OpenAIRealtimeClient \<Rightarrow> OpenAIRealtimeClient" where
  "openai_disconnect c = c\<lparr>ws := None, isConnected := False, realtimeSessionId := None\<rparr>"

text \<open>
  \<open>ws.onclose\<close>: the client after the event, the events it emits in order, and the error
  handed to \<open>reject\<close> (without effect once \<open>connect\<close> has settled). \<open>isConnected\<close> has just
  been cleared when the last condition is tested, so only the close code decides.
  \<open>close_message\<close> is the text of the status, \<open>reason\<close> being
  \<open>event.reason || 'unknown reason'\<close>.
\<close>

definition close_message :: "nat \<Rightarrow> string \<Rightarrow> string" where
  "close_message code reason =
     (if code = 1006 then
        ''connection closed abnormally (code '' @ string_of_nat code
          @ ''): check Edge Function logs''
      else if code \<noteq> 1000 then
        ''connection closed (code '' @ string_of_nat code @ ''): '' @ reason
      else ''disconnected from OpenAI'')"

definition ws_onclose ::
  "int \<Rightarrow> nat \<Rightarrow> string \<Rightarrow> OpenAIRealtimeClient
     \<Rightarrow> OpenAIRealtimeClient \<times> openai_event list \<times> exn option" where
  "ws_onclose now code event_reason c =
     (let reason = (if event_reason = [] then ''unknown reason'' else event_reason)
      in (c\<lparr>isConnected := False\<rparr>,
          [OaStatus (status_at now CatOpenai (close_message code reason)
             (if code = 1000 then Warning else LevelError)),
           OaDisconnected],
          (if code \<noteq> 1000 then
             Some (JsError (''WebSocket closed with code '' @ string_of_nat code @ '': '' @ reason))
           else None)))"

text \<open>
  \<open>connect\<close>. What the network does is decided outside the program: the pre-flight check
  is refused, or the socket opens, or it reports an error, or it closes before opening,
  or nothing happens for ten seconds. A normal close before opening leaves the promise
  pending until that timeout.
\<close>

datatype openai_connect_outcome =
    SocketOpened
  | PreflightFailed string
  | SocketError
  | SocketClosed nat string
  | SocketTimeout

definition openai_connect ::
  "openai_connect_outcome \<Rightarrow> int \<Rightarrow> OpenAIRealtimeClient
     \<Rightarrow> (exn + unit) \<times> OpenAIRealtimeClient \<times> openai_event list" where
  "openai_connect outcome now c =
     (let validating = OaStatus (status_at now CatOpenai
            ''validating authentication and API keys...'' Info);
          establishing = OaStatus (status_at now CatOpenai
            ''establishing WebSocket connection...'' Info);
          socket = \<lparr>readyStateOpen = False, sentMessages = [], closeCalled = False\<rparr>;
          c1 = c\<lparr>ws := Some socket\<rparr>
      in case outcome of
           PreflightFailed msg \<Rightarrow>
             (Inl (JsError msg), c, [validating, OaStatus (status_at now CatError msg LevelError)])
         | SocketOpened \<Rightarrow>
             (Inr (),
              c\<lparr>ws := Some (socket\<lparr>readyStateOpen := True\<rparr>), isConnected := True\<rparr>,
              [validating, establishing,
               OaStatus (status_at now CatOpenai
                 ''connected to OpenAI Realtime API via proxy'' Success)])
         | SocketError \<Rightarrow>
             (Inl ErrorEvent, c1,
              [validating, establishing,
               OaStatus (status_at now CatError ''WebSocket error: connection failed'' LevelError)])
         | SocketClosed code reason \<Rightarrow>
             (case ws_onclose now code reason c1 of
                (c2, evs, Some e) \<Rightarrow> (Inl e, c2, [validating, establishing] @ evs)
              | (c2, evs, None) \<Rightarrow>
                  (Inl (JsError ''OpenAI connection timeout''),
                   c2\<lparr>ws := Some (socket\<lparr>closeCalled := True\<rparr>)\<rparr>,
                   [validating, establishing] @ evs))
         | SocketTimeout \<Rightarrow>
             (Inl (JsError ''OpenAI connection timeout''),
              c\<lparr>ws := Some (socket\<lparr>closeCalled := True\<rparr>)\<rparr>,
              [validating, establishing]))"

section \<open>SimliClient (services/simli-client.ts)\<close>

record AudioElement =
  autoplay :: bool
  paused :: bool
  muted :: bool

text \<open>The vendor's client object, by the calls made on it.\<close>

record OfficialSimliClient =
  audioSent :: "8 word list list"
  bufferClears :: nat

record SimliClient =
  client :: "OfficialSimliClient option"
  simliKey :: string
  faceId :: string
  handleSilence :: bool
  isConnectedFlag :: bool
  audioElement :: "AudioElement option"
  audioElementCreatedByUs :: bool

definition new_SimliClient :: "string \<Rightarrow> string \<Rightarrow> SimliClient" where
  "new_SimliClient key face =
     \<lparr>client = None, simliKey = key, faceId = face, handleSilence = True,
      isConnectedFlag = False, audioElement = None, audioElementCreatedByUs = False\<rparr>"

text \<open>
  \<open>start\<close>, behind both \<open>initializePreview\<close> and \<open>initialize\<close>. The orchestrator
  constructs the client with a video element and without an audio element, so one is
  created. The vendor's client then signals \<open>connected\<close> or \<open>failed\<close>, or nothing for
  thirty seconds.
\<close>

datatype simli_outcome = SimliConnected | SimliFailed string | SimliTimeout

definition simli_start ::
  "simli_outcome \<Rightarrow> SimliClient \<Rightarrow> (exn + unit) \<times> SimliClient \<times> StatusUpdateMessage list" where
  "simli_start outcome sc =
     (let sc1 = sc\<lparr>audioElement := Some \<lparr>autoplay = True, paused = True, muted = False\<rparr>,
                    audioElementCreatedByUs := True,
                    client := Some \<lparr>audioSent = [], bufferClears = 0\<rparr>\<rparr>;
          initializing = status_plain CatSimli ''initializing connection'' Info
      in case outcome of
           SimliConnected \<Rightarrow>
             (Inr (), sc1\<lparr>isConnectedFlag := True\<rparr>,
              [initializing, status_plain CatSimli ''connected to Simli'' Success])
         | SimliFailed err \<Rightarrow>
             (Inl (JsError (''Simli connection failed: '' @ err)),
              sc1\<lparr>isConnectedFlag := False\<rparr>,
              [initializing,
               status_plain CatError (''Simli connection failed: '' @ err) LevelError])
         | SimliTimeout \<Rightarrow>
             (Inl (JsError ''Simli connection timeout''), sc1, [initializing]))"

text \<open>\<open>sendAudioData\<close> hands the whole array to the vendor's client in one call.\<close>

definition simli_sendAudioData :: "8 word list \<Rightarrow> SimliClient \<Rightarrow> SimliClient" where
  "simli_sendAudioData audioData sc =
     (case client sc of
        None \<Rightarrow> sc
      | Some off \<Rightarrow>
          (if \<not> isConnectedFlag sc then sc
           else sc\<lparr>client := Some (off\<lparr>audioSent := audioSent off @ [audioData]\<rparr>)\<rparr>))"

definition clearBuffer :: "SimliClient \<Rightarrow> SimliClient" where
  "clearBuffer sc =
     (case client sc of
        None \<Rightarrow> sc
      | Some off \<Rightarrow> sc\<lparr>client := Some (off\<lparr>bufferClears := bufferClears off + 1\<rparr>)\<rparr>)"

definition stopAudio :: "SimliClient \<Rightarrow> SimliClient" where
  "stopAudio sc =
     (case audioElement sc of
        None \<Rightarrow> sc
      | Some el \<Rightarrow> sc\<lparr>audioElement := Some (el\<lparr>paused := True, muted := True\<rparr>)\<rparr>)"

definition resumeAudio :: "SimliClient \<Rightarrow> SimliClient" where
  "resumeAudio sc =
     (case audioElement sc of
        None \<Rightarrow> sc
      | Some el \<Rightarrow> sc\<lparr>audioElement := Some (el\<lparr>muted := False\<rparr>)\<rparr>)"

text \<open>\<open>close\<close> (and \<open>disconnect\<close>, which calls it): the client afterwards and the status emitted.\<close>

definition simli_close :: "SimliClient \<Rightarrow> SimliClient \<times> StatusUpdateMessage" where
  "simli_close sc =
     ((stopAudio sc)\<lparr>client := None, audioElement := None, audioElementCreatedByUs := False,
                     isConnectedFlag := False\<rparr>,
      status_plain CatSimli ''connection closed'' Info)"

section \<open>VideoHandler (services/video-handler.ts)\<close>

record VideoElement =
  videoPaused :: bool
  videoSrc :: string

record VideoHandler =
  videoElement :: "VideoElement option"
  mediaSource :: bool
  sourceBuffer :: bool
  queue :: "8 word list list"
  isAppending :: bool

definition new_VideoHandler :: VideoHandler where
  "new_VideoHandler =
     \<lparr>videoElement = None, mediaSource = False, sourceBuffer = False, queue = [],
      isAppending = False\<rparr>"

definition setVideoElement :: "VideoElement \<Rightarrow> VideoHandler \<Rightarrow> VideoHandler" where
  "setVideoElement el vh = vh\<lparr>videoElement := Some el\<rparr>"

definition video_clear :: "VideoHandler \<Rightarrow> VideoHandler" where
  "video_clear vh =
     vh\<lparr>queue := [],
        videoElement := map_option (\<lambda>el. el\<lparr>videoPaused := True, videoSrc := []\<rparr>) (videoElement vh),
        sourceBuffer := False, mediaSource := False, isAppending := False\<rparr>"

definition video_destroy :: "VideoHandler \<Rightarrow> VideoHandler" where
  "video_destroy vh = (video_clear vh)\<lparr>videoElement := None\<rparr>"

section \<open>SessionManager (services/session-manager.ts)\<close>

record SessionConfig =
  configFaceId :: string
  characterInstructions :: "string option"

record SessionManager =
  openaiClient :: "OpenAIRealtimeClient option"
  simliClient :: "SimliClient option"
  audioCapture :: AudioCapture
  videoHandler :: VideoHandler
  sessionId :: "string option"
  state :: ConnectionState
  config :: SessionConfig
  openaiApiKey :: "string option"
  simliApiKey :: "string option"
  previewTimeout :: "nat option"
  audioResampler :: ResamplerConfig

text \<open>The events the orchestrator emits to its own listeners.\<close>

datatype manager_event =
    StatusEv StatusUpdateMessage
  | StateChange ConnectionState ConnectionState
  | AudioLevel rat
  | DisconnectedEv
  | SessionReady bool bool
  | Ended

text \<open>The constructor; an absent \<open>faceId\<close> gets the default.\<close>

definition new_SessionManager :: "string option \<Rightarrow> string option \<Rightarrow> SessionManager" where
  "new_SessionManager face instr =
     \<lparr>openaiClient = None, simliClient = None, audioCapture = new_AudioCapture,
      videoHandler = new_VideoHandler, sessionId = None, state = Idle,
      config = \<lparr>configFaceId =
                  (case face of None \<Rightarrow> ''6ebf0aa7-6fed-443d-a4c6-fd1e3080b215'' | Some f \<Rightarrow> f),
                characterInstructions = instr\<rparr>,
      openaiApiKey = None, simliApiKey = None, previewTimeout = None,
      audioResampler = createAudioResampler 24000 16000\<rparr>"

definition emitStatus :: "int \<Rightarrow> status_category \<Rightarrow> string \<Rightarrow> status_level \<Rightarrow> manager_event" where
  "emitStatus now c msg l = StatusEv (status_at now c msg l)"

definition setState :: "ConnectionState \<Rightarrow> SessionManager \<Rightarrow> SessionManager \<times> manager_event list" where
  "setState newState m = (m\<lparr>state := newState\<rparr>, [StateChange (state m) newState])"

text \<open>
  What the world outside answers during one call: the two rows of the key table, the
  active character file (name and content, absent on any failure), how the two remote
  connections and the request for the microphone end, and the identifier \<open>setTimeout\<close>
  returns.
\<close>

datatype key_query = KeyQueryError bool string | KeyRow "string option"

record Environment =
  openaiKeyQuery :: key_query
  simliKeyQuery :: key_query
  characterFile :: "(string \<times> string) option"
  openaiConnect :: openai_connect_outcome
  simliConnect :: simli_outcome
  microphone :: microphone_outcome
  timerId :: nat

text \<open>
  \<open>if (this.previewTimeout) { clearTimeout(this.previewTimeout); this.previewTimeout = null }\<close>
\<close>

definition clearPreviewTimeout :: "SessionManager \<Rightarrow> SessionManager" where
  "clearPreviewTimeout m =
     (case previewTimeout m of
        Some t \<Rightarrow> if t \<noteq> 0 then m\<lparr>previewTimeout := None\<rparr> else m
      | None \<Rightarrow> m)"

text \<open>
  \<open>loadApiKeys\<close>. A query error is rethrown with its message when it is an \<open>Error\<close>
  object (the flag) and as \<open>unknown error\<close> otherwise; a missing or empty key is an
  \<open>Error\<close> of the method's own. Everything is wrapped by the \<open>catch\<close>.
\<close>

definition key_failure :: "string \<Rightarrow> exn" where
  "key_failure msg = JsError (''Failed to load API keys: '' @ msg)"

definition loadApiKeys ::
  "Environment \<Rightarrow> int \<Rightarrow> SessionManager \<Rightarrow> (exn + unit) \<times> SessionManager \<times> manager_event list" where
  "loadApiKeys env now m =
     (case openaiKeyQuery env of
        KeyQueryError is_Error msg \<Rightarrow>
          (Inl (key_failure (if is_Error then msg else ''unknown error'')), m, [])
      | KeyRow openaiData \<Rightarrow>
          (if \<not> truthy openaiData then
             (Inl (key_failure ''OpenAI API key not found in database''), m, [])
           else
             (let m1 = m\<lparr>openaiApiKey := openaiData\<rparr>
              in case simliKeyQuery env of
                   KeyQueryError is_Error msg \<Rightarrow>
                     (Inl (key_failure (if is_Error then msg else ''unknown error'')), m1, [])
                 | KeyRow simliData \<Rightarrow>
                     (if \<not> truthy simliData then
                        (Inl (key_failure ''Simli API key not found in database''), m1, [])
                      else
                        (Inr (), m1\<lparr>simliApiKey := simliData\<rparr>,
                         [emitStatus now CatConnection ''API keys loaded successfully''
                            Success])))))"

definition loadCharacterFile :: "Environment \<Rightarrow> int \<Rightarrow> string option \<times> manager_event list" where
  "loadCharacterFile env now =
     (case characterFile env of
        None \<Rightarrow> (None, [])
      | Some (filename, content) \<Rightarrow>
          (Some content,
           [emitStatus now CatOpenai (''character file loaded: '' @ filename) Success]))"

text \<open>The listeners \<open>connectOpenAI\<close> registers on the speech client, for the events modelled.\<close>

definition on_openai_event :: "int \<Rightarrow> openai_event \<Rightarrow> manager_event list" where
  "on_openai_event now ev =
     (case ev of
        OaStatus s \<Rightarrow> [StatusEv s]
      | OaDisconnected \<Rightarrow>
          [emitStatus now CatError ''OpenAI disconnected'' LevelError, DisconnectedEv])"

definition connectOpenAI ::
  "Environment \<Rightarrow> int \<Rightarrow> SessionManager \<Rightarrow> (exn + unit) \<times> SessionManager \<times> manager_event list" where
  "connectOpenAI env now m =
     (if \<not> truthy (openaiApiKey m) then (Inl (JsError ''OpenAI API key not available''), m, [])
      else
        (case loadCharacterFile env now of
           (fileInstructions, evs0) \<Rightarrow>
             (let instr = js_or fileInstructions (characterInstructions (config m))
              in case openai_connect (openaiConnect env) now
                        (new_OpenAIRealtimeClient (the (openaiApiKey m)) instr) of
                   (Inl e, c, oevs) \<Rightarrow>
                     (Inl e, m\<lparr>openaiClient := Some c\<rparr>,
                      evs0 @ concat (map (on_openai_event now) oevs))
                 | (Inr u, c, oevs) \<Rightarrow>
                     (Inr (),
                      m\<lparr>openaiClient := Some (if truthy instr then updateSession instr c else c)\<rparr>,
                      evs0 @ concat (map (on_openai_event now) oevs)))))"

text \<open>
  \<open>connectSimliPreview\<close> and \<open>connectSimli\<close>: the avatar client's status events are
  re-emitted by the listener \<open>setupSimliListeners\<close> registers.
\<close>

definition connectSimliPreview ::
  "Environment \<Rightarrow> SessionManager \<Rightarrow> (exn + unit) \<times> SessionManager \<times> manager_event list" where
  "connectSimliPreview env m =
     (if \<not> truthy (simliApiKey m) then (Inl (JsError ''Simli API key not available''), m, [])
      else if videoElement (videoHandler m) = None then
        (Inl (JsError ''Video element not set''), m, [])
      else
        (case simli_start (simliConnect env)
                (new_SimliClient (the (simliApiKey m)) (configFaceId (config m))) of
           (r, sc, statuses) \<Rightarrow> (r, m\<lparr>simliClient := Some sc\<rparr>, map StatusEv statuses)))"

definition connectSimli ::
  "Environment \<Rightarrow> SessionManager \<Rightarrow> (exn + unit) \<times> SessionManager \<times> manager_event list" where
  "connectSimli env m =
     (if \<not> truthy (simliApiKey m) then (Inl (JsError ''Simli API key not available''), m, [])
      else if simliClient m \<noteq> None then (Inr (), m, [])
      else if videoElement (videoHandler m) = None then
        (Inl (JsError ''Video element not set''), m, [])
      else
        (case simli_start (simliConnect env)
                (new_SimliClient (the (simliApiKey m)) (configFaceId (config m))) of
           (r, sc, statuses) \<Rightarrow> (r, m\<lparr>simliClient := Some sc\<rparr>, map StatusEv statuses)))"

text \<open>\<open>stopPreview(keepConnectionAlive)\<close>.\<close>

definition stopPreview :: "bool \<Rightarrow> int \<Rightarrow> SessionManager \<Rightarrow> SessionManager \<times> manager_event list" where
  "stopPreview keepConnectionAlive now m =
     (let m1 = clearPreviewTimeout m;
          (m2, evs) =
            (case simliClient m1 of
               None \<Rightarrow> (m1, [])
             | Some sc \<Rightarrow>
                 (if state m1 = Active then (m1, [])
                  else if keepConnectionAlive then
                    (m1\<lparr>simliClient := Some (clearBuffer (stopAudio sc))\<rparr>, [])
                  else
                    (case simli_close (clearBuffer (stopAudio sc)) of
                       (sc1, status) \<Rightarrow> (m1\<lparr>simliClient := None\<rparr>, [StatusEv status]))))
      in (m2,
          evs @ [emitStatus now CatConnection
                   (if keepConnectionAlive then ''preview paused for upgrade''
                    else ''preview mode stopped'') Info]))"

text \<open>
  \<open>startPreview\<close> catches every failure and so always resolves. On success it arms the
  five-minute timer, whose callback is \<open>previewTimeoutCallback\<close>.
\<close>

definition startPreview :: "Environment \<Rightarrow> int \<Rightarrow> SessionManager \<Rightarrow> SessionManager \<times> manager_event list" where
  "startPreview env now m =
     (let loading = emitStatus now CatConnection ''loading avatar preview'' Info;
          unavailable = emitStatus now CatError ''avatar preview unavailable'' Warning
      in case loadApiKeys env now m of
           (Inl e, m1, evs1) \<Rightarrow> (m1, [loading] @ evs1 @ [unavailable])
         | (Inr u, m1, evs1) \<Rightarrow>
             (case connectSimliPreview env m1 of
                (Inl e, m2, evs2) \<Rightarrow> (m2, [loading] @ evs1 @ evs2 @ [unavailable])
              | (Inr u, m2, evs2) \<Rightarrow>
                  (m2\<lparr>previewTimeout := Some (timerId env)\<rparr>,
                   [loading] @ evs1 @ evs2
                   @ [emitStatus now CatConnection ''avatar preview loaded'' Success])))"

definition previewTimeoutCallback :: "int \<Rightarrow> SessionManager \<Rightarrow> SessionManager \<times> manager_event list" where
  "previewTimeoutCallback now m =
     (if simliClient m \<noteq> None \<and> state m = Connected then
        (case stopPreview False now m of
           (m1, evs) \<Rightarrow>
             (m1,
              [emitStatus now CatConnection
                 ''preview timeout, disconnecting to save bandwidth'' Info] @ evs))
      else (m, []))"

text \<open>\<open>initialize\<close>. Nothing in it catches: a failing step rejects the call where it stands.\<close>

definition initialize ::
  "Environment \<Rightarrow> int \<Rightarrow> SessionManager \<Rightarrow> (exn + unit) \<times> SessionManager \<times> manager_event list" where
  "initialize env now m =
     (case setState Connecting m of
        (m0, evs0) \<Rightarrow>
          (let m1 = clearPreviewTimeout m0;
               retrieving = emitStatus now CatConnection ''retrieving API keys from Supabase'' Info
           in case loadApiKeys env now m1 of
                (Inl e, m2, evs2) \<Rightarrow> (Inl e, m2, evs0 @ [retrieving] @ evs2)
              | (Inr u, m2, evs2) \<Rightarrow>
                  (let toOpenai = emitStatus now CatConnection
                         ''connecting to OpenAI Realtime API'' Info
                   in case connectOpenAI env now m2 of
                        (Inl e, m3, evs3) \<Rightarrow>
                          (Inl e, m3, evs0 @ [retrieving] @ evs2 @ [toOpenai] @ evs3)
                      | (Inr u, m3, evs3) \<Rightarrow>
                          (let toSimli = emitStatus now CatConnection
                                 ''connecting to Simli Avatar API'' Info;
                               before = evs0 @ [retrieving] @ evs2 @ [toOpenai] @ evs3 @ [toSimli]
                           in case simliClient m3 of
                                Some sc \<Rightarrow>
                                  (case setState Connected
                                          (m3\<lparr>simliClient := Some (clearBuffer (stopAudio sc))\<rparr>) of
                                     (m5, evs5) \<Rightarrow>
                                       (Inr (), m5,
                                        before
                                        @ [emitStatus now CatSimli
                                             ''upgrading preview connection to full session'' Info]
                                        @ evs5))
                              | None \<Rightarrow>
                                  (case connectSimli env m3 of
                                     (Inl e, m4, evs4) \<Rightarrow> (Inl e, m4, before @ evs4)
                                   | (Inr u, m4, evs4) \<Rightarrow>
                                       (case setState Connected m4 of
                                          (m5, evs5) \<Rightarrow> (Inr (), m5, before @ evs4 @ evs5)))))))"

text \<open>The listeners the constructor registers on the capture pipeline.\<close>

definition on_audio :: "int \<Rightarrow> 8 word list \<Rightarrow> bool \<Rightarrow> SessionManager \<Rightarrow> SessionManager \<times> manager_event list" where
  "on_audio now data voiceActivity m =
     ((if state m = Active then
         (case openaiClient m of
            Some c \<Rightarrow> m\<lparr>openaiClient := Some (openai_sendAudioData data c)\<rparr>
          | None \<Rightarrow> m)
       else m),
      [AudioLevel (if voiceActivity then round_binary64 (8 / 10) else round_binary64 (1 / 10))]
      @ (if voiceActivity then [emitStatus now CatUser ''speaking detected'' Info] else []))"

definition on_capture_event :: "int \<Rightarrow> capture_event \<Rightarrow> SessionManager \<Rightarrow> SessionManager \<times> manager_event list" where
  "on_capture_event now ev m =
     (case ev of
        AudioEv data t voiceActivity \<Rightarrow> on_audio now data voiceActivity m
      | Started \<Rightarrow> (m, [emitStatus now CatAudio ''microphone capture started'' Success])
      | CaptureError msg \<Rightarrow> (m, [emitStatus now CatError (''microphone error: '' @ msg) LevelError])
      | VoiceDetected \<Rightarrow> (m, [])
      | Stopped \<Rightarrow> (m, []))"

fun deliver_capture_events ::
  "int \<Rightarrow> capture_event list \<Rightarrow> SessionManager \<Rightarrow> SessionManager \<times> manager_event list" where
  "deliver_capture_events now [] m = (m, [])"
| "deliver_capture_events now (ev # evs) m =
     (case on_capture_event now ev m of
        (m1, out1) \<Rightarrow>
          (case deliver_capture_events now evs m1 of (m2, out2) \<Rightarrow> (m2, out1 @ out2)))"

text \<open>One audio callback of the platform, from the capture pipeline through the listeners.\<close>

definition onaudioprocess ::
  "(rat \<Rightarrow> rat) \<Rightarrow> int \<Rightarrow> AudioProcessingEvent \<Rightarrow> SessionManager \<Rightarrow> SessionManager \<times> manager_event list" where
  "onaudioprocess math_sqrt now event m =
     (case processAudio math_sqrt now (audioCapture m) event of
        (ac, emitted) \<Rightarrow> deliver_capture_events now emitted (m\<lparr>audioCapture := ac\<rparr>))"

text \<open>
  The \<open>audioResponse\<close> listener: \<open>delta\<close> is the field of the server's message, absent or a
  string. An exception of the resampler is caught and logged.
\<close>

definition on_audioResponse :: "string option \<Rightarrow> SessionManager \<Rightarrow> SessionManager" where
  "on_audioResponse delta m =
     (case simliClient m of
        None \<Rightarrow> m
      | Some sc \<Rightarrow>
          (if \<not> truthy delta then m
           else
             (case resampleFromBase64 (audioResampler m) (the delta) of
                Inl e \<Rightarrow> m
              | Inr resampledAudio \<Rightarrow>
                  m\<lparr>simliClient := Some (simli_sendAudioData resampledAudio sc)\<rparr>)))"

text \<open>
  The socket of the speech client closes while the orchestrator holds the client: the
  client's handler runs and the orchestrator's listeners receive what it emits.
\<close>

definition openai_socket_closed ::
  "int \<Rightarrow> nat \<Rightarrow> string \<Rightarrow> SessionManager \<Rightarrow> SessionManager \<times> manager_event list" where
  "openai_socket_closed now code reason m =
     (case openaiClient m of
        None \<Rightarrow> (m, [])
      | Some c \<Rightarrow>
          (case ws_onclose now code reason c of
             (c1, oevs, rejected) \<Rightarrow>
               (m\<lparr>openaiClient := Some c1\<rparr>, concat (map (on_openai_event now) oevs))))"

text \<open>\<open>startSession\<close>.\<close>

definition startSession ::
  "Environment \<Rightarrow> int \<Rightarrow> SessionManager \<Rightarrow> (exn + unit) \<times> SessionManager \<times> manager_event list" where
  "startSession env now m =
     (if state m \<noteq> Connected \<and> state m \<noteq> Ready then
        (Inl (JsError ''Not connected to services''), m, [])
      else
        (let requesting = emitStatus now CatConnection ''requesting microphone access'' Info
         in case capture_start (microphone env) (audioCapture m) of
              (Inl e, ac, cevs) \<Rightarrow>
                (case deliver_capture_events now cevs (m\<lparr>audioCapture := ac\<rparr>) of
                   (m1, evs1) \<Rightarrow>
                     (Inl e, m1,
                      [requesting] @ evs1
                      @ [emitStatus now CatError
                           (''failed to start audio capture: ''
                              @ (case e of JsError msg \<Rightarrow> msg | _ \<Rightarrow> ''unknown error''))
                           LevelError]))
            | (Inr u, ac, cevs) \<Rightarrow>
                (case deliver_capture_events now cevs (m\<lparr>audioCapture := ac\<rparr>) of
                   (m1, evs1) \<Rightarrow>
                     (case setState Active m1 of
                        (m2, evs2) \<Rightarrow>
                          (Inr (),
                           m2\<lparr>simliClient := map_option resumeAudio (simliClient m2)\<rparr>,
                           [requesting] @ evs1
                           @ [emitStatus now CatConnection ''microphone access granted'' Success]
                           @ evs2
                           @ [emitStatus now CatConnection
                                ''session active, listening for input'' Success,
                              SessionReady True True])))))"

text \<open>
  \<open>endSession\<close>. The capture pipeline's \<open>stopped\<close> event has no listener here; the avatar
  client's closing status is re-emitted.
\<close>

definition endSession :: "int \<Rightarrow> SessionManager \<Rightarrow> SessionManager \<times> manager_event list" where
  "endSession now m =
     (case setState Ending m of
        (m1, evs1) \<Rightarrow>
          (let m2 = (if isCapturing (audioCapture m1)
                     then m1\<lparr>audioCapture := fst (capture_stop (audioCapture m1))\<rparr> else m1);
               m3 = (case openaiClient m2 of
                       Some c \<Rightarrow> m2\<lparr>openaiClient := None\<rparr>
                     | None \<Rightarrow> m2);
               (m4, evs4) = (case simliClient m3 of
                       Some sc \<Rightarrow> (m3\<lparr>simliClient := None\<rparr>, [StatusEv (snd (simli_close sc))])
                     | None \<Rightarrow> (m3, []));
               m5 = m4\<lparr>videoHandler := video_clear (videoHandler m4), sessionId := None\<rparr>
           in case setState Idle m5 of
                (m6, evs6) \<Rightarrow>
                  (m6,
                   evs1 @ [emitStatus now CatConnection ''ending session'' Info] @ evs4 @ evs6
                   @ [emitStatus now CatConnection ''session ended'' Info, Ended])))"

definition setMicrophoneMuted :: "bool \<Rightarrow> int \<Rightarrow> SessionManager \<Rightarrow> SessionManager \<times> manager_event list" where
  "setMicrophoneMuted is_muted now m =
     (m\<lparr>audioCapture := setMuted is_muted (audioCapture m)\<rparr>,
      [emitStatus now CatAudio (''microphone '' @ (if is_muted then ''muted'' else ''unmuted'')) Info])"

definition destroy :: "int \<Rightarrow> SessionManager \<Rightarrow> SessionManager \<times> manager_event list" where
  "destroy now m =
     (case endSession now (clearPreviewTimeout m) of
        (m1, evs) \<Rightarrow> (m1\<lparr>videoHandler := video_destroy (videoHandler m1)\<rparr>, evs))"

section \<open>Scenarios\<close>

text \<open>
  Concrete inputs for the examples below. \<open>page_manager\<close> is the orchestrator as the
  page creates it, with the video element set. In \<open>all_good\<close> both keys are stored, no
  character file is active, both connections succeed and the microphone is granted;
  \<open>no_openai_key\<close> differs in that the key table has no row for OpenAI.
\<close>

definition page_manager :: SessionManager where
  "page_manager =
     (new_SessionManager None None)
       \<lparr>videoHandler := setVideoElement \<lparr>videoPaused = True, videoSrc = []\<rparr> new_VideoHandler\<rparr>"

definition all_good :: Environment where
  "all_good =
     \<lparr>openaiKeyQuery = KeyRow (Some ''sk-test''), simliKeyQuery = KeyRow (Some ''simli-test''),
      characterFile = None, openaiConnect = SocketOpened, simliConnect = SimliConnected,
      microphone = Granted, timerId = 1\<rparr>"

definition no_openai_key :: Environment where
  "no_openai_key = all_good\<lparr>openaiKeyQuery := KeyRow None\<rparr>"

text \<open>The orchestrator after a successful \<open>initialize\<close>, and after \<open>startSession\<close> on top of it.\<close>

definition connected_manager :: SessionManager where
  "connected_manager = fst (snd (initialize all_good 0 page_manager))"

definition active_manager :: SessionManager where
  "active_manager = fst (snd (startSession all_good 0 connected_manager))"

text \<open>
  The active orchestrator with the microphone muted, and a loud frame: analyser bytes of 0
  normalise to \<open>-1\<close>, so the mean square is 1, and so is its square root.
\<close>

definition muted_manager :: SessionManager where
  "muted_manager = fst (setMicrophoneMuted True 0 active_manager)"

definition loud_event :: AudioProcessingEvent where
  "loud_event = \<lparr>channelData = [Finite (1 / 2), Finite (- 1 / 2)], timeDomainData = [0, 0, 0, 0]\<rparr>"

section \<open>Rounding to binary64\<close>

lemma pow2_powi: "pow2 e = 2 powi e"
  by (simp add: pow2_def power_int_def inverse_eq_divide power_one_over)

lemma pow2_pos: "0 < pow2 e"
  by (simp add: pow2_powi)

lemma pow2_add: "pow2 (a + b) = pow2 a * pow2 b"
  by (simp add: pow2_powi power_int_add)

lemma pow2_mono: "a \<le> b \<Longrightarrow> pow2 a \<le> pow2 b"
  by (simp add: pow2_powi power_int_increasing)

lemma pow2_less_cancel: "pow2 a < pow2 b \<Longrightarrow> a < b"
  using pow2_mono [of b a] by (cases "a < b") auto

lemma pow2_nat: "pow2 (int n) = 2 ^ n"
  by (simp add: pow2_def)

lemma ilog2_bounds:
  assumes "0 < x"
  shows "pow2 (ilog2 x) \<le> x" and "x < pow2 (ilog2 x + 1)"
proof -
  obtain a b where q: "quotient_of x = (a, b)" by (cases "quotient_of x")
  have bpos: "0 < b" using q by (rule quotient_of_denom_pos)
  have xab: "x = of_int a / of_int b" using q by (rule quotient_of_div)
  have apos: "0 < a" using assms bpos xab by (simp add: zero_less_divide_iff)
  define la where "la = floorlog 2 (nat a)"
  define lb where "lb = floorlog 2 (nat b)"
  have A: "2 ^ (la - 1) \<le> nat a \<and> nat a < 2 ^ la"
    unfolding la_def using apos by (intro floorlog_bounds) auto
  have B: "2 ^ (lb - 1) \<le> nat b \<and> nat b < 2 ^ lb"
    unfolding lb_def using bpos by (intro floorlog_bounds) auto
  have la1: "1 \<le> la" using A apos by (cases la) auto
  have lb1: "1 \<le> lb" using B bpos by (cases lb) auto
  have a_lo: "(2::rat) ^ (la - 1) \<le> of_int a"
  proof -
    have "int (2 ^ (la - 1)) \<le> a" using A apos by linarith
    then have "(of_int (int (2 ^ (la - 1))) :: rat) \<le> of_int a" by (simp only: of_int_le_iff)
    then show ?thesis by simp
  qed
  have a_hi: "of_int a < (2::rat) ^ la"
  proof -
    have "a < int (2 ^ la)" using A apos by linarith
    then have "(of_int a :: rat) < of_int (int (2 ^ la))" by (simp only: of_int_less_iff)
    then show ?thesis by simp
  qed
  have b_lo: "(2::rat) ^ (lb - 1) \<le> of_int b"
  proof -
    have "int (2 ^ (lb - 1)) \<le> b" using B bpos by linarith
    then have "(of_int (int (2 ^ (lb - 1))) :: rat) \<le> of_int b" by (simp only: of_int_le_iff)
    then show ?thesis by simp
  qed
  have b_hi: "of_int b < (2::rat) ^ lb"
  proof -
    have "b < int (2 ^ lb)" using B bpos by linarith
    then have "(of_int b :: rat) < of_int (int (2 ^ lb))" by (simp only: of_int_less_iff)
    then show ?thesis by simp
  qed
  define e0 where "e0 = int la - int lb"
  have bq: "0 < (of_int b :: rat)" using bpos by simp
  have lo: "pow2 (e0 - 1) \<le> x"
  proof -
    have "pow2 (e0 - 1) * of_int b \<le> pow2 (e0 - 1) * 2 ^ lb"
      using b_hi pow2_pos [of "e0 - 1"] by (simp add: mult_left_mono)
    also have "\<dots> = pow2 (e0 - 1 + int lb)" by (simp add: pow2_add pow2_nat)
    also have "\<dots> = pow2 (int (la - 1))" using la1 by (simp add: e0_def of_nat_diff)
    also have "\<dots> = 2 ^ (la - 1)" by (rule pow2_nat)
    also have "\<dots> \<le> of_int a" by (rule a_lo)
    finally show ?thesis using bq by (simp add: xab pos_le_divide_eq)
  qed
  have hi: "x < pow2 (e0 + 1)"
  proof -
    have "of_int a < (2::rat) ^ la" by (rule a_hi)
    also have "\<dots> = pow2 (int la)" by (simp add: pow2_nat)
    also have "\<dots> = pow2 (e0 + 1 + int (lb - 1))" using lb1 by (simp add: e0_def of_nat_diff)
    also have "\<dots> = pow2 (e0 + 1) * 2 ^ (lb - 1)" by (simp add: pow2_add pow2_nat)
    also have "\<dots> \<le> pow2 (e0 + 1) * of_int b"
      using b_lo pow2_pos [of "e0 + 1"] by (simp add: mult_left_mono)
    finally show ?thesis using bq by (simp add: xab pos_divide_less_eq)
  qed
  have il: "ilog2 x = (if pow2 e0 \<le> x then e0 else e0 - 1)"
    by (simp add: ilog2_def q Let_def e0_def la_def lb_def)
  show "pow2 (ilog2 x) \<le> x" using lo by (simp add: il)
  show "x < pow2 (ilog2 x + 1)" using hi by (auto simp add: il not_le)
qed

lemma rhe_error: "\<bar>of_int (round_half_even y) - y\<bar> \<le> 1 / 2"
proof -
  have "of_int \<lfloor>y\<rfloor> \<le> y" "y < of_int \<lfloor>y\<rfloor> + 1" by linarith+
  then show ?thesis by (auto simp add: round_half_even_def Let_def abs_le_iff)
qed

lemma rhe_ge_int: "of_int m \<le> y \<Longrightarrow> m \<le> round_half_even y"
proof -
  assume "of_int m \<le> y"
  then have "m \<le> \<lfloor>y\<rfloor>" by (simp add: le_floor_iff)
  then show ?thesis by (auto simp add: round_half_even_def Let_def)
qed

lemma rhe_le_int: "y \<le> of_int m \<Longrightarrow> round_half_even y \<le> m"
proof (cases "y = of_int m")
  case True
  then show ?thesis by (simp add: round_half_even_def)
next
  case False
  assume "y \<le> of_int m"
  with False have "y < of_int m" by simp
  then have "\<lfloor>y\<rfloor> < m" by (simp add: floor_less_iff)
  then show ?thesis by (auto simp add: round_half_even_def Let_def)
qed


lemma quantum_pos: "0 < quantum x"
  by (simp add: quantum_def pow2_pos)

lemma rb64_pos:
  assumes "0 < x"
  shows "round_binary64 x = of_int (round_half_even (x / quantum x)) * quantum x"
proof -
  have nz: "x \<noteq> 0" using assms by simp
  have "round_binary64 x = sgn x * of_int (round_half_even (\<bar>x\<bar> / quantum \<bar>x\<bar>)) * quantum \<bar>x\<bar>"
    using nz unfolding round_binary64_def quantum_def Let_def by (simp only: if_False)
  moreover have "\<bar>x\<bar> = x" "sgn x = 1" using assms by simp_all
  ultimately show ?thesis by simp
qed

lemma rb64_error:
  assumes "0 < x"
  shows "\<bar>round_binary64 x - x\<bar> \<le> quantum x / 2"
proof -
  let ?q = "quantum x"
  have q: "0 < ?q" by (rule quantum_pos)
  have "\<bar>of_int (round_half_even (x / ?q)) - x / ?q\<bar> \<le> 1 / 2" by (rule rhe_error)
  then have "\<bar>of_int (round_half_even (x / ?q)) - x / ?q\<bar> * ?q \<le> 1 / 2 * ?q"
    using q by (simp add: mult_right_mono)
  moreover have "\<bar>of_int (round_half_even (x / ?q)) - x / ?q\<bar> * ?q
      = \<bar>of_int (round_half_even (x / ?q)) * ?q - x\<bar>"
  proof -
    have "\<bar>of_int (round_half_even (x / ?q)) - x / ?q\<bar> * ?q
        = \<bar>(of_int (round_half_even (x / ?q)) - x / ?q) * ?q\<bar>"
      using q by (simp add: abs_mult)
    also have "(of_int (round_half_even (x / ?q)) - x / ?q) * ?q
        = of_int (round_half_even (x / ?q)) * ?q - x"
      using q by (simp add: left_diff_distrib)
    finally show ?thesis .
  qed
  ultimately show ?thesis using assms by (simp add: rb64_pos)
qed

lemma ilog2_le_52:
  assumes "0 < x" "x < 2 ^ 53"
  shows "ilog2 x \<le> 52"
proof -
  have "pow2 (ilog2 x) \<le> x" using assms(1) by (rule ilog2_bounds)
  also have "x < pow2 53" using assms(2) by (simp add: pow2_def)
  finally have "ilog2 x < 53" by (rule pow2_less_cancel)
  then show ?thesis by simp
qed

lemma int_on_grid:
  assumes "0 < x" "x < 2 ^ 53"
  shows "\<exists>m::int. of_int k / quantum x = of_int m"
proof -
  define j where "j = 52 - max (ilog2 x) (- 1022)"
  have j0: "0 \<le> j" using ilog2_le_52 [OF assms] by (simp add: j_def)
  have "pow2 j * quantum x = pow2 (j + (max (ilog2 x) (- 1022) - 52))"
    by (simp add: quantum_def pow2_add)
  also have "\<dots> = 1" by (simp add: j_def pow2_def)
  finally have "of_int k / quantum x = of_int k * pow2 j"
    using quantum_pos [of x] by (simp add: field_simps)
  also have "\<dots> = of_int (k * 2 ^ nat j)" using j0 by (simp add: pow2_def)
  finally show ?thesis by blast
qed

lemma rb64_ge_int:
  assumes "0 < x" "x < 2 ^ 53" "of_int k \<le> x"
  shows "of_int k \<le> round_binary64 x"
proof -
  let ?q = "quantum x"
  have q: "0 < ?q" by (rule quantum_pos)
  obtain m :: int where m: "of_int k / ?q = of_int m" using int_on_grid [OF assms(1,2)] by blast
  have "of_int k / ?q \<le> x / ?q" using assms(3) q by (simp add: divide_right_mono)
  then have "m \<le> round_half_even (x / ?q)" by (simp add: m rhe_ge_int)
  then have "(of_int m :: rat) \<le> of_int (round_half_even (x / ?q))" by (simp only: of_int_le_iff)
  then have "of_int m * ?q \<le> of_int (round_half_even (x / ?q)) * ?q"
    using q by (simp add: mult_right_mono)
  moreover have "of_int m * ?q = of_int k" using m q by (simp add: field_simps)
  ultimately show ?thesis using assms(1) by (simp add: rb64_pos)
qed

lemma rb64_le_int:
  assumes "0 < x" "x \<le> of_int k" "k < 2 ^ 53"
  shows "round_binary64 x \<le> of_int k"
proof -
  let ?q = "quantum x"
  have q: "0 < ?q" by (rule quantum_pos)
  have "(of_int k :: rat) < of_int (2 ^ 53)" using assms(3) by (simp only: of_int_less_iff)
  then have x53: "x < 2 ^ 53" using assms(2) by simp
  obtain m :: int where m: "of_int k / ?q = of_int m" using int_on_grid [OF assms(1) x53] by blast
  have "x / ?q \<le> of_int k / ?q" using assms(2) q by (simp add: divide_right_mono)
  then have "round_half_even (x / ?q) \<le> m" by (simp add: m rhe_le_int)
  then have "(of_int (round_half_even (x / ?q)) :: rat) \<le> of_int m" by (simp only: of_int_le_iff)
  then have "of_int (round_half_even (x / ?q)) * ?q \<le> of_int m * ?q"
    using q by (simp add: mult_right_mono)
  moreover have "of_int m * ?q = of_int k" using m q by (simp add: field_simps)
  ultimately show ?thesis using assms(1) by (simp add: rb64_pos)
qed

lemma rb64_neg: "round_binary64 (- x) = - round_binary64 x"
  by (simp add: round_binary64_def Let_def)

lemma rb64_of_nat:
  assumes "n < 2 ^ 53"
  shows "round_binary64 (of_nat n) = of_nat n"
proof (cases "n = 0")
  case True
  then show ?thesis by (simp add: round_binary64_def)
next
  case False
  then have pos: "0 < (of_nat n :: rat)" by simp
  have "(of_nat n :: rat) < of_nat (2 ^ 53)" using assms by (simp only: of_nat_less_iff)
  then have lt: "(of_nat n :: rat) < 2 ^ 53" by simp
  have "int n < int (2 ^ 53)" using assms by (simp only: of_nat_less_iff)
  then have i: "int n < 2 ^ 53" by simp
  have "(of_int (int n) :: rat) \<le> round_binary64 (of_nat n)"
    by (rule rb64_ge_int [OF pos lt]) simp
  moreover have "round_binary64 (of_nat n) \<le> (of_int (int n) :: rat)"
    by (rule rb64_le_int [OF pos _ i]) simp
  ultimately show ?thesis by simp
qed

lemma floor_rb64_quotient:
  fixes a b :: nat
  assumes b: "0 < b" "b < 2 ^ 53" and a: "a < 2 ^ 53"
  shows "\<lfloor>round_binary64 (of_nat a / of_nat b)\<rfloor> = int (a div b)"
proof (cases "a = 0")
  case True
  then show ?thesis by (simp add: round_binary64_def)
next
  case False
  define x :: rat where "x = of_nat a / of_nat b"
  define k where "k = a div b"
  have bq: "0 < (of_nat b :: rat)" using b by simp
  have xpos: "0 < x" using False b by (simp add: x_def)
  have a53: "(of_nat a :: rat) < 2 ^ 53"
  proof -
    have "(of_nat a :: rat) < of_nat (2 ^ 53)" using a by (simp only: of_nat_less_iff)
    then show ?thesis by simp
  qed
  have b53: "(of_nat b :: rat) < 2 ^ 53"
  proof -
    have "(of_nat b :: rat) < of_nat (2 ^ 53)" using b by (simp only: of_nat_less_iff)
    then show ?thesis by simp
  qed
  have x_le_a: "x \<le> of_nat a"
  proof -
    have "(1::rat) \<le> of_nat b" using b by (simp add: Suc_leI)
    then have "of_nat a * 1 \<le> (of_nat a :: rat) * of_nat b" by (intro mult_left_mono) auto
    then show ?thesis using bq by (simp add: x_def pos_divide_le_eq)
  qed
  have x53: "x < 2 ^ 53" using x_le_a a53 by simp
  have kx: "of_int (int k) \<le> x"
  proof -
    have "k * b \<le> a" by (simp add: k_def)
    then have "(of_nat (k * b) :: rat) \<le> of_nat a" by (simp only: of_nat_le_iff)
    then show ?thesis using bq by (simp add: x_def pos_le_divide_eq)
  qed
  have lower: "of_int (int k) \<le> round_binary64 x" by (rule rb64_ge_int [OF xpos x53 kx])
  have xk1: "x \<le> of_nat k + 1 - 1 / of_nat b"
  proof -
    have "a < (k + 1) * b" using b by (simp add: k_def dividend_less_times_div mult.commute)
    then have "a + 1 \<le> (k + 1) * b" by simp
    then have "(of_nat (a + 1) :: rat) \<le> of_nat ((k + 1) * b)" by (simp only: of_nat_le_iff)
    then have "(of_nat a :: rat) \<le> (of_nat k + 1) * of_nat b - 1" by (simp add: algebra_simps)
    then have "(of_nat a :: rat) / of_nat b \<le> ((of_nat k + 1) * of_nat b - 1) / of_nat b"
      using bq by (simp add: divide_right_mono)
    also have "\<dots> = of_nat k + 1 - 1 / of_nat b" using bq by (simp add: field_simps)
    finally show ?thesis by (simp add: x_def)
  qed
  have ilog: "- 53 \<le> ilog2 x"
  proof -
    have "pow2 (- 53) * of_nat b < pow2 (- 53) * 2 ^ 53"
      using b53 pow2_pos [of "- 53"] by (simp add: mult_strict_left_mono)
    also have "\<dots> = 1" by (simp add: pow2_def)
    also have "\<dots> \<le> of_nat a" using False by (simp add: Suc_leI)
    finally have "pow2 (- 53) < x" using bq by (simp add: x_def pos_less_divide_eq)
    also have "x < pow2 (ilog2 x + 1)" using xpos by (rule ilog2_bounds)
    finally have "- 53 < ilog2 x + 1" by (rule pow2_less_cancel)
    then show ?thesis by simp
  qed
  have qhalf: "quantum x / 2 < 1 / of_nat b"
  proof -
    have "pow2 (ilog2 x + (- 53)) = pow2 ((ilog2 x - 52) + (- 1))" by simp
    also have "\<dots> = pow2 (ilog2 x - 52) * pow2 (- 1)" by (rule pow2_add)
    also have "\<dots> = quantum x / 2" using ilog by (simp add: quantum_def max_def pow2_def [of "- 1"])
    finally have "quantum x / 2 = pow2 (ilog2 x + (- 53))" by simp
    also have "\<dots> = pow2 (ilog2 x) * pow2 (- 53)" by (rule pow2_add)
    also have "\<dots> \<le> x * pow2 (- 53)"
      using ilog2_bounds(1) [OF xpos] pow2_pos [of "- 53"] by (simp add: mult_right_mono)
    also have "\<dots> = (of_nat a * pow2 (- 53)) / of_nat b" by (simp add: x_def)
    also have "\<dots> < 1 / of_nat b"
    proof -
      have "of_nat a * pow2 (- 53) < (2 ^ 53 :: rat) * pow2 (- 53)"
        using a53 pow2_pos [of "- 53"] by (simp add: mult_strict_right_mono)
      also have "\<dots> = 1" by (simp add: pow2_def)
      finally show ?thesis using bq by (simp add: divide_strict_right_mono)
    qed
    finally show ?thesis .
  qed
  have "round_binary64 x - x \<le> \<bar>round_binary64 x - x\<bar>" by simp
  with rb64_error [OF xpos] have "round_binary64 x \<le> x + quantum x / 2" by linarith
  also have "\<dots> < of_nat k + 1" using xk1 qhalf by simp
  finally have upper: "round_binary64 x < of_int (int k) + 1" by simp
  have "\<lfloor>round_binary64 x\<rfloor> = int k"
    using lower upper by (simp add: floor_unique)
  then show ?thesis by (simp add: x_def k_def)
qed


text \<open>Evaluating a rounding from its exponent and significand.\<close>

lemma ilog2_unique:
  assumes "0 < x" "pow2 e \<le> x" "x < pow2 (e + 1)"
  shows "ilog2 x = e"
proof -
  have "pow2 (ilog2 x) \<le> x" "x < pow2 (ilog2 x + 1)" using assms(1) by (rule ilog2_bounds)+
  then have "pow2 (ilog2 x) < pow2 (e + 1)" "pow2 e < pow2 (ilog2 x + 1)"
    using assms(2,3) by simp_all
  then have "ilog2 x < e + 1" and "e < ilog2 x + 1" by (blast dest: pow2_less_cancel)+
  then show ?thesis by simp
qed

lemma rhe_near: "\<bar>y - of_int m\<bar> < 1 / 2 \<Longrightarrow> round_half_even y = m"
proof -
  assume a: "\<bar>y - of_int m\<bar> < 1 / 2"
  have f: "of_int \<lfloor>y\<rfloor> \<le> y" "y < of_int \<lfloor>y\<rfloor> + 1" by linarith+
  consider "\<lfloor>y\<rfloor> = m" | "\<lfloor>y\<rfloor> = m - 1"
  proof -
    have "of_int m - 1 < y" "y < of_int m + 1" using a by linarith+
    then have "m - 1 \<le> \<lfloor>y\<rfloor>" "\<lfloor>y\<rfloor> < m + 1"
      by (simp_all only: le_floor_iff floor_less_iff of_int_diff of_int_add of_int_1 less_imp_le)
    then have "\<lfloor>y\<rfloor> = m \<or> \<lfloor>y\<rfloor> = m - 1" by linarith
    then show ?thesis using that by blast
  qed
  then show ?thesis
  proof cases
    case 1
    then show ?thesis using a f by (auto simp add: round_half_even_def Let_def)
  next
    case 2
    then show ?thesis using a f by (auto simp add: round_half_even_def Let_def)
  qed
qed

lemma round_binary64_eval:
  assumes "0 < x" "- 1022 \<le> e" "pow2 e \<le> x" "x < pow2 (e + 1)"
    and "\<bar>x / pow2 (e - 52) - of_int m\<bar> < 1 / 2"
  shows "round_binary64 x = of_int m * pow2 (e - 52)"
proof -
  have "ilog2 x = e" using assms(1,3,4) by (rule ilog2_unique)
  then have "quantum x = pow2 (e - 52)" using assms(2) by (simp add: quantum_def max_def)
  then show ?thesis using assms(1,5) by (simp add: rb64_pos rhe_near)
qed

lemma rb64_3_2: "round_binary64 (3 / 2) = 3 / 2"
proof -
  have "round_binary64 (3 / 2) = of_int 6755399441055744 * pow2 (0 - 52)"
    by (rule round_binary64_eval) (simp_all add: pow2_def abs_less_iff)
  then show ?thesis by (simp add: pow2_def)
qed


text \<open>Small integers and the threshold \<open>0.01\<close>.\<close>

lemma rb64_numeral:
  "numeral k < (9007199254740992 :: nat) \<Longrightarrow> round_binary64 (numeral k) = numeral k"
  using rb64_of_nat [of "numeral k"] by simp

lemma rb64_neg_numeral:
  "numeral k < (9007199254740992 :: nat) \<Longrightarrow> round_binary64 (- numeral k) = - numeral k"
  using rb64_neg [of "numeral k"] by (simp add: rb64_numeral)

lemma rb64_one: "round_binary64 1 = 1" "round_binary64 (- 1) = - 1"
  using rb64_of_nat [of 1] rb64_neg [of 1] by simp_all

lemma threshold_value: "round_binary64 (1 / 100) = 5764607523034235 / 576460752303423488"
proof -
  have "round_binary64 (1 / 100) = of_int 5764607523034235 * pow2 (- 7 - 52)"
    by (rule round_binary64_eval) (simp_all add: pow2_def abs_less_iff)
  then show ?thesis by (simp add: pow2_def)
qed

text \<open>The relative error of rounding a normal number is at most \<open>2 ^ - 53\<close>.\<close>

lemma rb64_relative_error:
  assumes "pow2 (- 1022) \<le> x"
  shows "\<bar>round_binary64 x - x\<bar> \<le> x / 2 ^ 53"
proof -
  have xpos: "0 < x" using assms pow2_pos [of "- 1022"] by linarith
  have "pow2 (- 1022) < pow2 (ilog2 x + 1)"
    using assms ilog2_bounds(2) [OF xpos] by linarith
  then have "- 1022 < ilog2 x + 1" by (rule pow2_less_cancel)
  then have il: "- 1022 \<le> ilog2 x" by simp
  have "pow2 (ilog2 x + (- 53)) = pow2 ((ilog2 x - 52) + (- 1))" by simp
  also have "\<dots> = pow2 (ilog2 x - 52) * pow2 (- 1)" by (rule pow2_add)
  also have "\<dots> = quantum x / 2" using il by (simp add: quantum_def max_def pow2_def [of "- 1"])
  finally have "quantum x / 2 = pow2 (ilog2 x + (- 53))" by simp
  also have "\<dots> = pow2 (ilog2 x) * pow2 (- 53)" by (rule pow2_add)
  also have "\<dots> \<le> x * pow2 (- 53)"
    using ilog2_bounds(1) [OF xpos] pow2_pos [of "- 53"] by (simp add: mult_right_mono)
  also have "\<dots> = x / 2 ^ 53" by (simp add: pow2_def)
  finally show ?thesis using rb64_error [OF xpos] by linarith
qed

section \<open>Properties of the resampler\<close>

text \<open>
  C7. With the source rate equal to the target rate, \<open>resample\<close> returns its input
  unchanged, for every sample array and every rate.
\<close>

theorem resample_identity:
  "resample (createAudioResampler r r) s = Inr s"
  by (simp add: resample_def resample_on_def createAudioResampler_def)

text \<open>The outcome for distinct positive rates, by the length the code computes.\<close>

lemma resample_on_cases:
  assumes "src \<noteq> tgt" "0 < src" "0 < tgt"
  shows "map_sum id length (resample_on limit (createAudioResampler src tgt) s)
    = (if min limit max_int16_array_length
            < nat \<lfloor>js_div (of_nat (length s)) (js_div (of_nat src) (of_nat tgt))\<rfloor>
       then Inl RangeError
       else Inr (nat \<lfloor>js_div (of_nat (length s)) (js_div (of_nat src) (of_nat tgt))\<rfloor>))"
  using assms by (simp add: resample_on_def createAudioResampler_def Let_def)

text \<open>
  The length the code computes, \<open>Math.floor(samples.length / ratio)\<close> with both
  divisions rounded, is the exact \<open>floor (length * r_tgt / r_src)\<close> or one less.
\<close>

lemma output_length_bounds:
  fixes n src tgt :: nat
  assumes src: "0 < src" "src < 2 ^ 53" and tgt: "0 < tgt" and a52: "n * tgt < 2 ^ 52"
  shows "\<lfloor>js_div (of_nat n) (js_div (of_nat src) (of_nat tgt))\<rfloor> = int (n * tgt div src)
       \<or> \<lfloor>js_div (of_nat n) (js_div (of_nat src) (of_nat tgt))\<rfloor> + 1 = int (n * tgt div src)"
proof (cases "n = 0")
  case True
  then show ?thesis by (simp add: js_div_def round_binary64_def)
next
  case False
  define u :: rat where "u = 1 / 2 ^ 53"
  define a where "a = n * tgt"
  define k where "k = a div src"
  define r :: rat where "r = of_nat src / of_nat tgt"
  define r' where "r' = round_binary64 r"
  define x where "x = of_nat n / r'"
  define q' where "q' = round_binary64 x"
  have upos: "0 < u" "u < 1 / 2" by (simp_all add: u_def)
  have bq: "0 < (of_nat src :: rat)" and tq: "0 < (of_nat tgt :: rat)" and nq: "0 < (of_nat n :: rat)"
    using src tgt False by simp_all
  have apos: "0 < a" using False tgt by (simp add: a_def)
  have a52q: "(of_nat a :: rat) < 2 ^ 52"
  proof -
    have "(of_nat a :: rat) < of_nat (2 ^ 52)" using a52 unfolding a_def by (simp only: of_nat_less_iff)
    then show ?thesis by simp
  qed
  have src53: "(of_nat src :: rat) < 2 ^ 53"
  proof -
    have "(of_nat src :: rat) < of_nat (2 ^ 53)" using src by (simp only: of_nat_less_iff)
    then show ?thesis by simp
  qed
  have tgt53: "(of_nat tgt :: rat) < 2 ^ 53"
  proof -
    have "tgt \<le> n * tgt" using False by simp
    moreover have "n * tgt < 2 ^ 53" using a52 by simp
    ultimately have "tgt < 2 ^ 53" by (rule le_less_trans)
    then have "(of_nat tgt :: rat) < of_nat (2 ^ 53)" by (simp only: of_nat_less_iff)
    then show ?thesis by simp
  qed
  have rpos: "0 < r" using bq tq by (simp add: r_def)
  have nr: "of_nat n = of_nat a / of_nat src * r"
    using bq tq by (simp add: r_def a_def)
  \<comment> \<open>the ratio is a normal number\<close>
  have r_norm: "pow2 (- 1022) \<le> r"
  proof -
    have "(1::rat) \<le> of_nat src" using src by (simp add: Suc_leI)
    then have "1 / 2 ^ 53 \<le> (of_nat src :: rat) / of_nat tgt"
      using tq tgt53 by (simp add: field_simps)
    moreover have "pow2 (- 1022) \<le> pow2 (- 53)" by (rule pow2_mono) simp
    moreover have "pow2 (- 53) = 1 / 2 ^ 53" by (simp add: pow2_def)
    ultimately show ?thesis unfolding r_def by linarith
  qed
  have re: "\<bar>r' - r\<bar> \<le> r * u"
    using rb64_relative_error [OF r_norm] by (simp add: r'_def u_def)
  have r'lo: "r * (1 - u) \<le> r'" and r'hi: "r' \<le> r * (1 + u)"
    using re by (simp_all add: abs_le_iff algebra_simps)
  have r'pos: "0 < r'"
  proof -
    have "0 < r * (1 - u)" using rpos upos by simp
    then show ?thesis using r'lo by linarith
  qed
  have xpos: "0 < x" using nq r'pos by (simp add: x_def)
  have xr': "x * r' = of_nat n" using r'pos by (simp add: x_def)
  define q :: rat where "q = of_nat a / of_nat src"
  have nqr: "of_nat n = q * r" using nr by (simp add: q_def)
  have qpos: "0 < q" using apos bq by (simp add: q_def)
  have kq: "of_nat k \<le> q"
  proof -
    have "k * src \<le> a" by (simp add: k_def)
    then have "(of_nat (k * src) :: rat) \<le> of_nat a" by (simp only: of_nat_le_iff)
    then show ?thesis using bq by (simp add: q_def pos_le_divide_eq)
  qed
  have qk1: "q + 1 / of_nat src \<le> of_nat k + 1"
  proof -
    have "a < (k + 1) * src" using src by (simp add: k_def dividend_less_times_div mult.commute)
    then have "a + 1 \<le> (k + 1) * src" by simp
    then have "(of_nat (a + 1) :: rat) \<le> of_nat ((k + 1) * src)" by (simp only: of_nat_le_iff)
    then have "(of_nat a + 1 :: rat) \<le> (of_nat k + 1) * of_nat src" by (simp add: algebra_simps)
    then have "(of_nat a + 1 :: rat) / of_nat src \<le> of_nat k + 1"
      using bq by (simp add: pos_divide_le_eq)
    then show ?thesis by (simp add: q_def add_divide_distrib)
  qed
  have q_le_a: "q \<le> of_nat a"
  proof -
    have "(1::rat) \<le> of_nat src" using src by (simp add: Suc_leI)
    then have "of_nat a * 1 \<le> (of_nat a :: rat) * of_nat src" by (intro mult_left_mono) auto
    then show ?thesis using bq by (simp add: q_def pos_divide_le_eq)
  qed
  have q52: "q < 2 ^ 52" using q_le_a a52q by linarith
  have x_hi: "x * (1 - u) \<le> q"
  proof -
    have "x * (r * (1 - u)) \<le> x * r'" using r'lo xpos by (simp add: mult_left_mono)
    then have "(x * (1 - u)) * r \<le> q * r" using xr' nqr by (simp add: mult_ac)
    then show ?thesis using rpos by (simp only: mult_le_cancel_right_pos)
  qed
  have x_lo: "q \<le> x * (1 + u)"
  proof -
    have "x * r' \<le> x * (r * (1 + u))" using r'hi xpos by (simp add: mult_left_mono)
    then have "q * r \<le> (x * (1 + u)) * r" using xr' nqr by (simp add: mult_ac)
    then show ?thesis using rpos by (simp only: mult_le_cancel_right_pos)
  qed
  have x53: "x < 2 ^ 53"
  proof -
    have "x * (1 / 2) \<le> x * (1 - u)" using xpos upos by (intro mult_left_mono) auto
    then have "x * (1 / 2) \<le> q" using x_hi by linarith
    then show ?thesis using q52 by simp
  qed
  have x_norm: "pow2 (- 1022) \<le> x"
  proof -
    have "1 / 2 ^ 53 \<le> q"
    proof -
      have "(1::rat) \<le> of_nat a" using apos by (simp add: Suc_leI)
      then have "1 / of_nat src \<le> q" using bq by (simp add: q_def divide_right_mono)
      moreover have "1 / 2 ^ 53 \<le> 1 / (of_nat src :: rat)"
        using bq src53 by (simp add: frac_le)
      ultimately show ?thesis by linarith
    qed
    moreover have "x * (1 + u) \<le> x * 2" using xpos upos by (intro mult_left_mono) auto
    ultimately have "1 / 2 ^ 53 \<le> x * 2" using x_lo by linarith
    then have "1 / 2 ^ 54 \<le> x" by simp
    moreover have "pow2 (- 1022) \<le> pow2 (- 54)" by (rule pow2_mono) simp
    moreover have "pow2 (- 54) = 1 / 2 ^ 54" by (simp add: pow2_def)
    ultimately show ?thesis by linarith
  qed
  have qe: "\<bar>q' - x\<bar> \<le> x * u"
    using rb64_relative_error [OF x_norm] by (simp add: q'_def u_def)
  have upper: "q' < of_nat k + 1"
  proof -
    have "q' \<le> x * (1 + u)" using qe by (simp add: abs_le_iff algebra_simps)
    then have "q' * (1 - u) \<le> x * (1 + u) * (1 - u)"
      using upos by (intro mult_right_mono) auto
    also have "\<dots> = (x * (1 - u)) * (1 + u)" by (simp add: mult_ac)
    also have "\<dots> \<le> q * (1 + u)" using x_hi upos by (intro mult_right_mono) auto
    also have "\<dots> < (q + 1 / of_nat src) * (1 - u)"
    proof -
      have "(2 * of_nat a + 1) * u < (1::rat)"
        using a52q by (simp add: u_def)
      then have "2 * of_nat a * u + u < (1::rat)" by (simp add: algebra_simps)
      then have "of_nat a * (1 + u) < (of_nat a + 1) * (1 - u)" by (simp add: algebra_simps)
      then have "of_nat a * (1 + u) / of_nat src < (of_nat a + 1) * (1 - u) / of_nat src"
        using bq by (simp add: divide_strict_right_mono)
      moreover have "q * (1 + u) = of_nat a * (1 + u) / of_nat src" by (simp add: q_def)
      moreover have "(q + 1 / of_nat src) * (1 - u) = (of_nat a + 1) * (1 - u) / of_nat src"
        unfolding q_def using bq by (simp add: field_simps)
      ultimately show ?thesis by (simp only:)
    qed
    also have "\<dots> \<le> (of_nat k + 1) * (1 - u)"
      using qk1 upos by (intro mult_right_mono) auto
    finally have "q' * (1 - u) < (of_nat k + 1) * (1 - u)" .
    then show ?thesis using upos by (simp only: mult_less_cancel_right_pos) 
  qed
  have q'nonneg: "0 \<le> q'"
    using rb64_ge_int [OF xpos x53, of 0] xpos by (simp add: q'_def)
  have lower: "of_nat k - 1 \<le> q'"
  proof (cases "k = 0")
    case True
    then show ?thesis using q'nonneg by simp
  next
    case False
    have ku: "(of_nat k - 1) * u \<le> (1::rat)"
    proof -
      have "(of_nat k :: rat) \<le> of_nat a" using kq q_le_a by linarith
      then have "(of_nat k - 1 :: rat) \<le> 2 ^ 53" using a52q by simp
      then have "(of_nat k - 1) * u \<le> 2 ^ 53 * u" using upos by (intro mult_right_mono) auto
      then show ?thesis by (simp add: u_def)
    qed
    have "of_nat k - 1 \<le> x"
    proof (rule ccontr)
      assume "\<not> of_nat k - 1 \<le> x"
      then have "x < of_nat k - 1" by simp
      then have "x * (1 + u) < (of_nat k - 1) * (1 + u)"
        using upos by (intro mult_strict_right_mono) auto
      also have "\<dots> = of_nat k - 1 + (of_nat k - 1) * u" by (simp add: algebra_simps)
      also have "\<dots> \<le> of_nat k" using ku by linarith
      finally show False using x_lo kq by linarith
    qed
    then have "of_int (int k - 1) \<le> x" by simp
    then have "of_int (int k - 1) \<le> round_binary64 x" by (rule rb64_ge_int [OF xpos x53])
    then show ?thesis by (simp add: q'_def)
  qed
  have "int k - 1 \<le> \<lfloor>q'\<rfloor>"
  proof -
    have "of_int (int k - 1) \<le> q'" using lower by simp
    then show ?thesis by (simp only: le_floor_iff)
  qed
  moreover have "\<lfloor>q'\<rfloor> < int k + 1"
  proof -
    have "q' < of_int (int k + 1)" using upper by simp
    then show ?thesis by (simp only: floor_less_iff)
  qed
  ultimately have "\<lfloor>q'\<rfloor> = int k \<or> \<lfloor>q'\<rfloor> + 1 = int k" by linarith
  then show ?thesis
    by (simp add: q'_def x_def r'_def r_def js_div_def k_def a_def)
qed

lemma output_length_exact_ratio:
  fixes n src tgt :: nat
  assumes "0 < src" "src < 2 ^ 53" "0 < tgt" "n * tgt < 2 ^ 52"
    and "round_binary64 (of_nat src / of_nat tgt) = of_nat src / of_nat tgt"
  shows "\<lfloor>js_div (of_nat n) (js_div (of_nat src) (of_nat tgt))\<rfloor> = int (n * tgt div src)"
proof -
  have "(of_nat n :: rat) / (of_nat src / of_nat tgt) = of_nat (n * tgt) / of_nat src"
    using assms(1,3) by simp
  moreover have "\<lfloor>round_binary64 (of_nat (n * tgt) / of_nat src)\<rfloor> = int (n * tgt div src)"
    by (rule floor_rb64_quotient) (use assms in simp_all)
  ultimately show ?thesis by (simp add: js_div_def assms(5))
qed

text \<open>The orchestrator's rates: \<open>24000 / 16000 = 1.5\<close> is a binary64 number.\<close>

lemma resample_on_24000_16000:
  assumes "length s < 2 ^ 52" "length s * 16000 div 24000 \<le> limit"
  shows "\<exists>out. resample_on limit (createAudioResampler 24000 16000) s = Inr out
           \<and> length out = (length s * 16000) div 24000"
proof -
  define k where "k = length s * 2 div 3"
  have r: "js_div 24000 16000 = 3 / 2"
    using rb64_3_2 by (simp add: js_div_def)
  have "(of_nat (length s) :: rat) / (3 / 2) = of_nat (length s * 2) / of_nat 3" by simp
  moreover have "\<lfloor>round_binary64 (of_nat (length s * 2) / of_nat 3)\<rfloor> = int (length s * 2 div 3)"
    by (rule floor_rb64_quotient) (use assms in simp_all)
  ultimately have fl: "\<lfloor>js_div (of_nat (length s)) (3 / 2)\<rfloor> = int k"
    unfolding k_def by (simp only: js_div_def)
  have kk: "length s * 16000 div 24000 = k" unfolding k_def by simp
  have "k \<le> limit" using assms(2) unfolding kk .
  moreover have "k \<le> length s" unfolding k_def by arith
  then have "k < 2 ^ 52" using assms(1) by (rule le_less_trans)
  then have "k \<le> max_int16_array_length" by (simp add: max_int16_array_length_def)
  ultimately have le: "\<not> min limit max_int16_array_length < k" by simp
  have "map_sum id length (resample_on limit (createAudioResampler 24000 16000) s) = Inr k"
    using resample_on_cases [of 24000 16000 limit s] le by (simp add: r fl)
  then show ?thesis
    unfolding kk by (cases "resample_on limit (createAudioResampler 24000 16000) s") auto
qed


text \<open>
  The rates 12000 and 11025 on 480 samples: \<open>12000 / 11025\<close> rounds to
  \<open>4901877145437275 / 2 ^ 52\<close> and \<open>480\<close> divided by it rounds to
  \<open>7758154045587455 / 2 ^ 44\<close>, just below 441.
\<close>

lemma ratio_12000_11025: "js_div 12000 11025 = 4901877145437275 / 4503599627370496"
proof -
  have "round_binary64 (12000 / 11025) = of_int 4901877145437275 * pow2 (0 - 52)"
    by (rule round_binary64_eval) (simp_all add: pow2_def abs_less_iff)
  then show ?thesis by (simp add: js_div_def pow2_def)
qed

lemma length_480_12000_11025: "\<lfloor>js_div 480 (js_div 12000 11025)\<rfloor> = 440"
proof -
  have r: "round_binary64 (480 / (4901877145437275 / 4503599627370496))
      = of_int 7758154045587455 * pow2 (8 - 52)"
    by (rule round_binary64_eval) (simp_all add: pow2_def abs_less_iff)
  have "js_div 480 (js_div 12000 11025) = js_div 480 (4901877145437275 / 4503599627370496)"
    by (simp only: ratio_12000_11025)
  also have "\<dots> = of_int 7758154045587455 * pow2 (8 - 52)"
    unfolding js_div_def by (rule r)
  also have "\<dots> = 7758154045587455 / 17592186044416" by (simp add: pow2_def)
  finally show ?thesis by (simp add: floor_eq_iff)
qed

text \<open>
  C8, as stated, fails: from 12000 Hz to 11025 Hz, 480 samples give 440 samples, while
  \<open>floor (480 * 11025 / 12000) = 441\<close>.
\<close>

theorem resample_length_counterexample:
  "map_sum id length (resample (createAudioResampler 12000 11025) (replicate 480 0)) = Inr 440
   \<and> (480 * 11025) div 12000 = (441 :: nat)"
  using resample_on_cases [of 12000 11025 max_int16_array_length "replicate 480 0"]
    length_480_12000_11025
  by (simp add: resample_def max_int16_array_length_def)

text \<open>
  C8, amended. For distinct positive rates, the source rate below \<open>2 ^ 53\<close>, and an
  array with \<open>length * r_tgt < 2 ^ 52\<close>, the length that \<open>resample\<close> computes is
  \<open>floor (length * r_tgt / r_src)\<close> or one less, and it is exactly
  \<open>floor (length * r_tgt / r_src)\<close> when the ratio \<open>r_src / r_tgt\<close> is a binary64
  number (as \<open>24000 / 16000 = 1.5\<close> is). Where the platform allocates an array of that
  length, \<open>resample\<close> returns an array of that length; where it does not,
  \<open>resample\<close> throws a \<open>RangeError\<close>.
\<close>

theorem resample_output_length:
  assumes "src \<noteq> tgt" "0 < src" "src < 2 ^ 53" "0 < tgt" "length s * tgt < 2 ^ 52"
  shows "\<exists>len.
      (len = (length s * tgt) div src \<or> len + 1 = (length s * tgt) div src)
    \<and> (round_binary64 (of_nat src / of_nat tgt) = of_nat src / of_nat tgt
         \<longrightarrow> len = (length s * tgt) div src)
    \<and> (len \<le> limit \<longrightarrow>
         (\<exists>out. resample_on limit (createAudioResampler src tgt) s = Inr out \<and> length out = len))
    \<and> (limit < len \<longrightarrow> resample_on limit (createAudioResampler src tgt) s = Inl RangeError)"
proof -
  define len where "len = nat \<lfloor>js_div (of_nat (length s)) (js_div (of_nat src) (of_nat tgt))\<rfloor>"
  define k where "k = (length s * tgt) div src"
  have b: "\<lfloor>js_div (of_nat (length s)) (js_div (of_nat src) (of_nat tgt))\<rfloor> = int k
       \<or> \<lfloor>js_div (of_nat (length s)) (js_div (of_nat src) (of_nat tgt))\<rfloor> + 1 = int k"
    unfolding k_def by (rule output_length_bounds [OF assms(2,3,4,5)])
  then have l: "len = k \<or> len + 1 = k" unfolding len_def by auto
  have "k \<le> length s * tgt" unfolding k_def by (rule div_le_dividend)
  then have "k < 2 ^ 52" using assms(5) by simp
  then have cap: "len \<le> max_int16_array_length"
    using l by (auto simp add: max_int16_array_length_def)
  have m: "map_sum id length (resample_on limit (createAudioResampler src tgt) s)
      = (if min limit max_int16_array_length < len then Inl RangeError else Inr len)"
    unfolding len_def by (rule resample_on_cases [OF assms(1,2,4)])
  have ok: "\<exists>out. resample_on limit (createAudioResampler src tgt) s = Inr out \<and> length out = len"
    if "len \<le> limit"
  proof -
    have "map_sum id length (resample_on limit (createAudioResampler src tgt) s) = Inr len"
      using m that cap by simp
    then show ?thesis by (cases "resample_on limit (createAudioResampler src tgt) s") auto
  qed
  have ko: "resample_on limit (createAudioResampler src tgt) s = Inl RangeError" if "limit < len"
  proof -
    have "map_sum id length (resample_on limit (createAudioResampler src tgt) s) = Inl RangeError"
      using m that by simp
    then show ?thesis by (cases "resample_on limit (createAudioResampler src tgt) s") auto
  qed
  have ex: "len = k" if "round_binary64 (of_nat src / of_nat tgt) = of_nat src / of_nat tgt"
    unfolding len_def k_def
    using output_length_exact_ratio [OF assms(2,3,4,5) that] by simp
  show ?thesis
    using l ok ko ex unfolding k_def by blast
qed

theorem resample_output_length_witness:
  "(24000::nat) \<noteq> 16000 \<and> (0::nat) < 24000 \<and> (24000::nat) < 2 ^ 53 \<and> (0::nat) < 16000
   \<and> length [1, 2, 3, 4, 5 :: 16 word] * 16000 < 2 ^ 52
   \<and> round_binary64 (of_nat 24000 / of_nat 16000) = of_nat 24000 / of_nat 16000
   \<and> (\<exists>out. resample_on 10 (createAudioResampler 24000 16000) [1, 2, 3, 4, 5] = Inr out
           \<and> length out = 3)
   \<and> resample_on 2 (createAudioResampler 24000 16000) [1, 2, 3, 4, 5] = Inl RangeError"
proof -
  have r: "round_binary64 (of_nat 24000 / of_nat 16000) = of_nat 24000 / of_nat 16000"
    using rb64_3_2 by simp
  show ?thesis
    using resample_output_length [of 24000 16000 "[1, 2, 3, 4, 5]" 10]
      resample_output_length [of 24000 16000 "[1, 2, 3, 4, 5]" 2] r
    by auto
qed
section \<open>Decoding base64 into samples\<close>

lemma index_of_None: "index_of c xs = None \<longleftrightarrow> c \<notin> set xs"
  by (induction xs) auto

lemma length_decode_sextets:
  "length xs mod 4 \<noteq> 1 \<Longrightarrow> length (decode_sextets xs) = length xs * 3 div 4"
proof (induction xs rule: decode_sextets.induct)
  case (1 a b c d rest)
  have "length rest mod 4 \<noteq> 1" using 1(2) by (simp add: mod_Suc split: if_splits)
  then have "length (decode_sextets rest) = length rest * 3 div 4" by (rule 1(1) [OF refl])
  then show ?case by (simp add: Let_def)
qed (simp_all add: Let_def)

lemma length_int16_view: "length (int16_view bs) = length bs div 2"
  by (induction bs rule: int16_view.induct) simp_all

lemma atob_cases:
  "atob s = (if well_formed_base64 s
     then Inr (decode_sextets (map (\<lambda>c. the (base64_value c)) (base64_payload s)))
     else Inl InvalidCharacterError)"
  by (auto simp add: atob_def well_formed_base64_def base64_payload_def Let_def list_ex_iff
      list_all_iff base64_value_def index_of_None)

lemma atob_length:
  "well_formed_base64 s \<Longrightarrow> \<exists>bytes. atob s = Inr bytes \<and> length bytes = decoded_length s"
  by (simp add: atob_cases decoded_length_def length_decode_sextets well_formed_base64_def)

lemma base64ToPCM16_cases:
  "base64ToPCM16 s =
     (if \<not> well_formed_base64 s then Inl InvalidCharacterError
      else if odd (decoded_length s) then Inl RangeError
      else Inr (int16_view (projr (atob s))))"
proof (cases "well_formed_base64 s")
  case True
  then obtain bytes where "atob s = Inr bytes" "length bytes = decoded_length s"
    using atob_length by blast
  then show ?thesis using True by (simp add: base64ToPCM16_def)
next
  case False
  then show ?thesis by (simp add: base64ToPCM16_def atob_cases)
qed

lemma length_strip_padding: "length (strip_padding s) \<le> length s"
  by (auto simp add: strip_padding_def split: list.splits)

lemma decoded_length_le: "decoded_length s \<le> length s"
proof -
  have "length (base64_payload s) \<le> length s"
    unfolding base64_payload_def
    by (rule order_trans [OF length_strip_padding]) simp
  then show ?thesis by (simp add: decoded_length_def)
qed

lemma resampleFromBase64_unfold:
  "resampleFromBase64 cfg s =
     (case base64ToPCM16 s of
        Inl e \<Rightarrow> Inl e
      | Inr pcm \<Rightarrow>
          (case resample cfg pcm of
             Inl e \<Rightarrow> Inl e
           | Inr resampled \<Rightarrow> Inr (pcm16ToUint8Array resampled)))"
  unfolding resampleFromBase64_def resampleFromBase64_on_def resample_def by (rule refl)

lemma resample_on_error: "resample_on limit cfg samples = Inl e \<Longrightarrow> e = RangeError"
  by (simp add: resample_on_def Let_def split: if_splits)

lemma resampleFromBase64_on_fails_iff:
  "resampleFromBase64_on limit cfg s = Inl e \<longleftrightarrow>
     base64ToPCM16 s = Inl e
     \<or> e = RangeError \<and> (\<exists>samples. base64ToPCM16 s = Inr samples
            \<and> resample_on limit cfg samples = Inl RangeError)"
proof (cases "base64ToPCM16 s")
  case (Inl a)
  then show ?thesis by (simp add: resampleFromBase64_on_def)
next
  case (Inr pcm)
  show ?thesis
  proof (cases "resample_on limit cfg pcm")
    case (Inl a)
    then have "a = RangeError" by (rule resample_on_error)
    then show ?thesis using Inl Inr by (auto simp add: resampleFromBase64_on_def)
  next
    case Inr2: (Inr out)
    then show ?thesis using Inr by (simp add: resampleFromBase64_on_def)
  qed
qed

lemma resampleFromBase64_on_24000_16000:
  assumes "length s < 2 ^ 53" "base64ToPCM16 s = Inr samples"
    and "length samples * 16000 div 24000 \<le> limit"
  shows "\<exists>out. resample_on limit (createAudioResampler 24000 16000) samples = Inr out
           \<and> resampleFromBase64_on limit (createAudioResampler 24000 16000) s
               = Inr (pcm16ToUint8Array out)"
proof -
  have wf: "well_formed_base64 s"
    using assms(2) by (simp add: base64ToPCM16_cases split: if_splits)
  then obtain bytes where b: "atob s = Inr bytes" "length bytes = decoded_length s"
    using atob_length by blast
  have "samples = int16_view bytes"
    using assms(2) b(1) by (simp add: base64ToPCM16_def split: if_splits)
  moreover have "decoded_length s \<le> length s" by (rule decoded_length_le)
  ultimately have "length samples < 2 ^ 52"
    using assms(1) b(2) by (simp add: length_int16_view)
  then obtain out where "resample_on limit (createAudioResampler 24000 16000) samples = Inr out"
    using resample_on_24000_16000 [OF _ assms(3)] by blast
  then show ?thesis using assms(2) by (simp add: resampleFromBase64_on_def)
qed

lemma base64_examples:
  "well_formed_base64 ''QQ=='' \<and> atob ''QQ=='' = Inr [65]
   \<and> well_formed_base64 ''AAECAw=='' \<and> decoded_length ''AAECAw=='' = 4
   \<and> atob ''AAECAw=='' = Inr [0, 1, 2, 3]"
  by (simp add: atob_def well_formed_base64_def base64_payload_def decoded_length_def
      strip_padding_def is_ascii_whitespace_def base64_value_def base64_alphabet_def Let_def)

text \<open>
  C9, as stated, fails: \<open>QQ==\<close> is well-formed base64 (it decodes to the one byte 65),
  and \<open>base64ToPCM16\<close> fails on it, with the \<open>RangeError\<close> of the \<open>Int16Array\<close>
  constructor.
\<close>

theorem base64ToPCM16_odd_counterexample:
  "well_formed_base64 ''QQ=='' \<and> atob ''QQ=='' = Inr [65]
   \<and> base64ToPCM16 ''QQ=='' = Inl RangeError"
  using base64_examples by (simp add: base64ToPCM16_def)

text \<open>
  C9, amended. \<open>base64ToPCM16\<close> fails in exactly two cases: with the decode error of
  \<open>atob\<close> when the input is malformed base64, and with a \<open>RangeError\<close> when the input
  is well-formed and decodes to an odd number of bytes. On a well-formed input of even
  decoded length it returns the decoded bytes read as little-endian 16-bit samples, half as
  many as there are bytes. \<open>resampleFromBase64\<close> fails, with the same error, whenever
  \<open>base64ToPCM16\<close> fails; its one other failure is the \<open>RangeError\<close> of
  \<open>resample\<close> on the decoded samples, thrown when the platform does not allocate the
  output array. With the orchestrator's rates, 24000 to 16000, \<open>resampleFromBase64\<close>
  returns the bytes of the resampled samples whenever the input decodes to samples and the
  platform allocates an array of the resampled length.
\<close>

theorem base64ToPCM16_errors:
  "(base64ToPCM16 s = Inl InvalidCharacterError \<longleftrightarrow> \<not> well_formed_base64 s)
   \<and> (base64ToPCM16 s = Inl RangeError \<longleftrightarrow> well_formed_base64 s \<and> odd (decoded_length s))
   \<and> (well_formed_base64 s \<and> even (decoded_length s) \<longrightarrow>
        (\<exists>bytes. atob s = Inr bytes \<and> length bytes = decoded_length s
           \<and> base64ToPCM16 s = Inr (int16_view bytes)
           \<and> length (int16_view bytes) = decoded_length s div 2))
   \<and> (\<forall>msg. base64ToPCM16 s \<noteq> Inl (JsError msg))
   \<and> (resampleFromBase64_on limit cfg s = Inl e \<longleftrightarrow>
        base64ToPCM16 s = Inl e
        \<or> e = RangeError \<and> (\<exists>samples. base64ToPCM16 s = Inr samples
               \<and> resample_on limit cfg samples = Inl RangeError))
   \<and> (length s < 2 ^ 53 \<and> base64ToPCM16 s = Inr samples
        \<and> length samples * 16000 div 24000 \<le> limit \<longrightarrow>
        (\<exists>out. resample_on limit (createAudioResampler 24000 16000) samples = Inr out
           \<and> resampleFromBase64_on limit (createAudioResampler 24000 16000) s
               = Inr (pcm16ToUint8Array out)))"
proof (intro conjI allI impI)
  show "base64ToPCM16 s = Inl InvalidCharacterError \<longleftrightarrow> \<not> well_formed_base64 s"
    by (simp add: base64ToPCM16_cases)
  show "base64ToPCM16 s = Inl RangeError \<longleftrightarrow> well_formed_base64 s \<and> odd (decoded_length s)"
    by (simp add: base64ToPCM16_cases)
  show "base64ToPCM16 s \<noteq> Inl (JsError msg)" for msg
    by (simp add: base64ToPCM16_cases)
  show "resampleFromBase64_on limit cfg s = Inl e \<longleftrightarrow>
        base64ToPCM16 s = Inl e
        \<or> e = RangeError \<and> (\<exists>samples. base64ToPCM16 s = Inr samples
               \<and> resample_on limit cfg samples = Inl RangeError)"
    by (rule resampleFromBase64_on_fails_iff)
  show "\<exists>out. resample_on limit (createAudioResampler 24000 16000) samples = Inr out
           \<and> resampleFromBase64_on limit (createAudioResampler 24000 16000) s
               = Inr (pcm16ToUint8Array out)"
    if "length s < 2 ^ 53 \<and> base64ToPCM16 s = Inr samples
        \<and> length samples * 16000 div 24000 \<le> limit"
    using that by (blast intro: resampleFromBase64_on_24000_16000)
next
  assume a: "well_formed_base64 s \<and> even (decoded_length s)"
  then obtain bytes where b: "atob s = Inr bytes" "length bytes = decoded_length s"
    using atob_length by blast
  then show "\<exists>bytes. atob s = Inr bytes \<and> length bytes = decoded_length s
           \<and> base64ToPCM16 s = Inr (int16_view bytes)
           \<and> length (int16_view bytes) = decoded_length s div 2"
    using a by (simp add: base64ToPCM16_def length_int16_view)
qed

theorem base64ToPCM16_errors_witness:
  "well_formed_base64 ''AAECAw=='' \<and> even (decoded_length ''AAECAw=='')
   \<and> length ''AAECAw=='' < 2 ^ 53
   \<and> base64ToPCM16 ''AAECAw=='' = Inr (int16_view [0, 1, 2, 3])
   \<and> length (int16_view [0, 1, 2, 3]) * 16000 div 24000 \<le> 2
   \<and> (\<exists>bytes. atob ''AAECAw=='' = Inr bytes \<and> length bytes = 4
         \<and> base64ToPCM16 ''AAECAw=='' = Inr (int16_view bytes)
         \<and> length (int16_view bytes) = 2)
   \<and> (\<exists>out. resample_on 2 (createAudioResampler 24000 16000) (int16_view [0, 1, 2, 3]) = Inr out
         \<and> resampleFromBase64_on 2 (createAudioResampler 24000 16000) ''AAECAw==''
             = Inr (pcm16ToUint8Array out))"
proof -
  have p: "base64ToPCM16 ''AAECAw=='' = Inr (int16_view [0, 1, 2, 3])"
    using base64_examples by (simp add: base64ToPCM16_def)
  show ?thesis
    using base64ToPCM16_errors [where s = "''AAECAw==''" and samples = "int16_view [0, 1, 2, 3]"
        and limit = 2] base64_examples p
    by simp
qed
section \<open>Quantisation in the capture pipeline\<close>











section \<open>The scenarios, evaluated\<close>

lemma connected_manager_eq:
  "connected_manager =
     page_manager
       \<lparr>state := Connected,
        openaiApiKey := Some ''sk-test'', simliApiKey := Some ''simli-test'',
        openaiClient := Some
          \<lparr>ws = Some \<lparr>readyStateOpen = True, sentMessages = [], closeCalled = False\<rparr>,
           apiKey = ''sk-test'', model = ''gpt-4o-realtime-preview-2024-10-01'',
           instructions = None, isConnected = True, realtimeSessionId = None\<rparr>,
        simliClient := Some
          \<lparr>client = Some \<lparr>audioSent = [], bufferClears = 0\<rparr>, simliKey = ''simli-test'',
           faceId = ''6ebf0aa7-6fed-443d-a4c6-fd1e3080b215'', handleSilence = True,
           isConnectedFlag = True,
           audioElement = Some \<lparr>autoplay = True, paused = True, muted = False\<rparr>,
           audioElementCreatedByUs = True\<rparr>\<rparr>"
  by (simp add: connected_manager_def initialize_def setState_def clearPreviewTimeout_def
      loadApiKeys_def connectOpenAI_def loadCharacterFile_def openai_connect_def
      new_OpenAIRealtimeClient_def js_or_def connectSimli_def simli_start_def
      new_SimliClient_def all_good_def page_manager_def new_SessionManager_def truthy_def
      setVideoElement_def new_VideoHandler_def Let_def)

lemma active_manager_eq:
  "active_manager =
     connected_manager
       \<lparr>state := Active,
        audioCapture := new_AudioCapture
          \<lparr>mediaStream := True, audioContext := True, mediaStreamSource := True,
           analyser := True, processor := True, isCapturing := True\<rparr>\<rparr>"
  by (simp add: active_manager_def connected_manager_eq startSession_def capture_start_def
      on_capture_event_def setState_def resumeAudio_def all_good_def page_manager_def new_AudioCapture_def
      new_SessionManager_def Let_def)

lemma active_capture:
  "audioCapture active_manager = new_AudioCapture
     \<lparr>mediaStream := True, audioContext := True, mediaStreamSource := True,
      analyser := True, processor := True, isCapturing := True\<rparr>"
  by (simp add: active_manager_eq)

lemma muted_capture:
  "audioCapture muted_manager = new_AudioCapture
     \<lparr>mediaStream := True, audioContext := True, mediaStreamSource := True,
      analyser := True, processor := True, isCapturing := True, isMuted := True\<rparr>"
  by (simp add: muted_manager_def setMicrophoneMuted_def setMuted_def active_capture)

section \<open>The session state machine\<close>

lemma video_clear_idem: "video_clear (video_clear vh) = video_clear vh"
  by (cases "videoElement vh") (simp_all add: video_clear_def)

lemma endSession_state: "state (fst (endSession now m)) = Idle"
  by (simp add: endSession_def setState_def Let_def split: option.splits prod.splits)

lemma endSession_fst:
  "fst (endSession now m) =
     m\<lparr>state := Idle,
       audioCapture := (if isCapturing (audioCapture m) then fst (capture_stop (audioCapture m))
                        else audioCapture m),
       openaiClient := None, simliClient := None,
       videoHandler := video_clear (videoHandler m), sessionId := None\<rparr>"
  by (simp add: endSession_def setState_def Let_def split: option.splits prod.splits)

lemma endSession_idempotent:
  "fst (endSession now' (fst (endSession now m))) = fst (endSession now m)"
  by (simp add: endSession_fst capture_stop_def video_clear_idem)

text \<open>
  C5. \<open>startSession\<close> called in a state that is neither \<open>connected\<close> nor \<open>ready\<close>
  rejects and leaves the orchestrator as it was, without emitting anything.
  \<open>endSession\<close> always leaves the state \<open>idle\<close>, whatever the state before, and is
  idempotent: a second call leaves the orchestrator as the first did.
\<close>

theorem startSession_endSession_safety:
  "(state m \<noteq> Connected \<and> state m \<noteq> Ready \<longrightarrow>
      startSession env now m = (Inl (JsError ''Not connected to services''), m, []))
   \<and> state (fst (endSession now m)) = Idle
   \<and> fst (endSession now' (fst (endSession now m))) = fst (endSession now m)"
  by (simp add: startSession_def endSession_state endSession_idempotent)

theorem startSession_endSession_safety_witness:
  "state page_manager \<noteq> Connected \<and> state page_manager \<noteq> Ready
   \<and> startSession all_good 0 page_manager
       = (Inl (JsError ''Not connected to services''), page_manager, [])
   \<and> state (fst (endSession 0 page_manager)) = Idle
   \<and> fst (endSession 1 (fst (endSession 0 page_manager))) = fst (endSession 0 page_manager)"
  using startSession_endSession_safety [where m = page_manager and env = all_good and now = 0 and now' = 1]
  by (simp add: page_manager_def new_SessionManager_def)

lemma loadApiKeys_no_openai_key:
  assumes "openaiKeyQuery env = KeyRow v" "\<not> truthy v"
  shows "loadApiKeys env now m
    = (Inl (JsError ''Failed to load API keys: OpenAI API key not found in database''), m, [])"
  using assms by (simp add: loadApiKeys_def key_failure_def)

lemma initialize_no_openai_key:
  assumes "openaiKeyQuery env = KeyRow v" "\<not> truthy v"
  shows "initialize env now m
    = (Inl (JsError ''Failed to load API keys: OpenAI API key not found in database''),
       clearPreviewTimeout (m\<lparr>state := Connecting\<rparr>),
       [StateChange (state m) Connecting,
        emitStatus now CatConnection ''retrieving API keys from Supabase'' Info])"
  using assms
  by (simp add: initialize_def setState_def Let_def loadApiKeys_no_openai_key [OF assms])

lemma clearPreviewTimeout_fields:
  "state (clearPreviewTimeout m) = state m"
  "openaiClient (clearPreviewTimeout m) = openaiClient m"
  "simliClient (clearPreviewTimeout m) = simliClient m"
  by (simp_all add: clearPreviewTimeout_def split: option.splits)

lemma destroy_state: "state (fst (destroy now m)) = Idle"
  using endSession_state [of now "clearPreviewTimeout m"]
  by (cases "endSession now (clearPreviewTimeout m)") (simp add: destroy_def)

text \<open>
  C3, as stated, fails: with no OpenAI key stored, \<open>initialize\<close> on an idle orchestrator
  rejects with the configuration error and leaves the state \<open>connecting\<close>, which is
  neither \<open>idle\<close> nor \<open>error\<close>.
\<close>

theorem initialize_missing_key_counterexample:
  "fst (initialize no_openai_key 0 page_manager)
     = Inl (JsError ''Failed to load API keys: OpenAI API key not found in database'')
   \<and> state page_manager = Idle
   \<and> state (fst (snd (initialize no_openai_key 0 page_manager))) = Connecting"
  using initialize_no_openai_key [of no_openai_key None 0 page_manager]
  by (simp add: no_openai_key_def all_good_def truthy_def clearPreviewTimeout_fields
      page_manager_def new_SessionManager_def)

text \<open>
  C3, amended. If the OpenAI credential is absent from the credential store (no row, or an
  empty value), \<open>initialize\<close> rejects with the configuration error
  \<open>Failed to load API keys: OpenAI API key not found in database\<close>, creates no client,
  and leaves the state \<open>connecting\<close>; the state is \<open>idle\<close> again once the caller
  calls \<open>endSession\<close> or, as the page does, \<open>destroy\<close>.
\<close>

theorem initialize_missing_key:
  assumes "openaiKeyQuery env = KeyRow v" "\<not> truthy v"
  shows "fst (initialize env now m)
      = Inl (JsError ''Failed to load API keys: OpenAI API key not found in database'')
    \<and> state (fst (snd (initialize env now m))) = Connecting
    \<and> openaiClient (fst (snd (initialize env now m))) = openaiClient m
    \<and> simliClient (fst (snd (initialize env now m))) = simliClient m
    \<and> state (fst (endSession now' (fst (snd (initialize env now m))))) = Idle
    \<and> state (fst (destroy now' (fst (snd (initialize env now m))))) = Idle"
  by (simp add: initialize_no_openai_key [OF assms] clearPreviewTimeout_fields endSession_state
      destroy_state)

theorem initialize_missing_key_witness:
  "openaiKeyQuery no_openai_key = KeyRow None \<and> \<not> truthy None
   \<and> fst (initialize no_openai_key 0 page_manager)
      = Inl (JsError ''Failed to load API keys: OpenAI API key not found in database'')
   \<and> state (fst (snd (initialize no_openai_key 0 page_manager))) = Connecting
   \<and> state (fst (endSession 1 (fst (snd (initialize no_openai_key 0 page_manager))))) = Idle
   \<and> state (fst (destroy 1 (fst (snd (initialize no_openai_key 0 page_manager))))) = Idle"
  using initialize_missing_key [of no_openai_key None 0 page_manager 1]
  by (simp add: no_openai_key_def all_good_def truthy_def)

text \<open>
  The preview timer. \<open>startPreview\<close> never changes the state, and the timer's callback
  does nothing unless the state is \<open>connected\<close>.
\<close>

lemma startPreview_state: "state (fst (startPreview env now m)) = state m"
  by (auto simp add: startPreview_def loadApiKeys_def connectSimliPreview_def Let_def
      split: key_query.splits prod.splits sum.splits if_splits)

lemma previewTimeoutCallback_not_connected:
  "state m \<noteq> Connected \<Longrightarrow> previewTimeoutCallback now m = (m, [])"
  by (simp add: previewTimeoutCallback_def)

lemma startPreview_all_good:
  "fst (startPreview all_good 0 page_manager)
    = page_manager
       \<lparr>openaiApiKey := Some ''sk-test'', simliApiKey := Some ''simli-test'',
        simliClient := Some
          \<lparr>client = Some \<lparr>audioSent = [], bufferClears = 0\<rparr>, simliKey = ''simli-test'',
           faceId = ''6ebf0aa7-6fed-443d-a4c6-fd1e3080b215'', handleSilence = True,
           isConnectedFlag = True,
           audioElement = Some \<lparr>autoplay = True, paused = True, muted = False\<rparr>,
           audioElementCreatedByUs = True\<rparr>,
        previewTimeout := Some 1\<rparr>"
  by (simp add: startPreview_def loadApiKeys_def connectSimliPreview_def simli_start_def
      new_SimliClient_def all_good_def page_manager_def new_SessionManager_def truthy_def
      setVideoElement_def new_VideoHandler_def Let_def)

text \<open>
  C2 on the code: a preview started on a fresh orchestrator leaves the state \<open>idle\<close>
  with the avatar client connected and the timer armed; when the timer fires, the
  callback's guard \<open>state = connected\<close> is false, so nothing is torn down and the avatar
  client stays connected.
\<close>

theorem preview_timeout_leaves_preview_connected:
  "state (fst (startPreview all_good 0 page_manager)) = Idle
   \<and> previewTimeout (fst (startPreview all_good 0 page_manager)) = Some 1
   \<and> map_option isConnectedFlag (simliClient (fst (startPreview all_good 0 page_manager)))
       = Some True
   \<and> previewTimeoutCallback 300000 (fst (startPreview all_good 0 page_manager))
       = (fst (startPreview all_good 0 page_manager), [])"
proof -
  have s: "state (fst (startPreview all_good 0 page_manager)) = Idle"
    by (simp add: startPreview_state page_manager_def new_SessionManager_def)
  then have "previewTimeoutCallback 300000 (fst (startPreview all_good 0 page_manager))
       = (fst (startPreview all_good 0 page_manager), [])"
    by (simp add: previewTimeoutCallback_not_connected)
  then show ?thesis using s by (simp add: startPreview_all_good)
qed

section \<open>Closing of the speech socket\<close>

lemma openai_socket_closed_result:
  assumes "openaiClient m = Some c"
  shows "openai_socket_closed now code reason m
     = (m\<lparr>openaiClient := Some (c\<lparr>isConnected := False\<rparr>)\<rparr>,
        [StatusEv (status_at now CatOpenai
           (close_message code (if reason = [] then ''unknown reason'' else reason))
           (if code = 1000 then Warning else LevelError)),
         emitStatus now CatError ''OpenAI disconnected'' LevelError,
         DisconnectedEv])"
  using assms by (simp add: openai_socket_closed_def ws_onclose_def on_openai_event_def Let_def)

text \<open>
  C6, as stated, fails: when the socket of a connected orchestrator closes with the normal
  code 1000, the client still emits \<open>disconnected\<close>, and the orchestrator answers with an
  error-level status and its own \<open>disconnected\<close> event.
\<close>

theorem normal_close_counterexample:
  "snd (openai_socket_closed 0 1000 [] connected_manager)
     = [StatusEv (status_at 0 CatOpenai ''disconnected from OpenAI'' Warning),
        StatusEv (status_at 0 CatError ''OpenAI disconnected'' LevelError),
        DisconnectedEv]"
  by (simp add: openai_socket_closed_def ws_onclose_def on_openai_event_def Let_def
      close_message_def emitStatus_def connected_manager_eq)

text \<open>
  C6, amended. On every close of the socket, whatever the code, the client emits a status
  (a warning for code 1000, an error for any other code) and then \<open>disconnected\<close>; the
  orchestrator re-emits the status, adds the error-level status \<open>OpenAI disconnected\<close> and
  its own \<open>disconnected\<close> event, and keeps its state. The close code decides only the
  level of the client's status and whether a pending \<open>connect\<close> is rejected: it is for
  every code but 1000.
\<close>

theorem socket_close_always_disconnects:
  assumes "openaiClient m = Some c"
  shows "openai_socket_closed now code reason m
     = (m\<lparr>openaiClient := Some (c\<lparr>isConnected := False\<rparr>)\<rparr>,
        [StatusEv (status_at now CatOpenai
           (close_message code (if reason = [] then ''unknown reason'' else reason))
           (if code = 1000 then Warning else LevelError)),
         emitStatus now CatError ''OpenAI disconnected'' LevelError,
         DisconnectedEv])
    \<and> state (fst (openai_socket_closed now code reason m)) = state m
    \<and> (snd (snd (ws_onclose now code reason c)) = None \<longleftrightarrow> code = 1000)"
proof -
  have "snd (snd (ws_onclose now code reason c)) = None \<longleftrightarrow> code = 1000"
    by (simp add: ws_onclose_def Let_def)
  then show ?thesis by (simp add: openai_socket_closed_result [OF assms])
qed

theorem socket_close_always_disconnects_witness:
  "map_option isConnected (openaiClient connected_manager) = Some True
   \<and> snd (openai_socket_closed 0 1006 [] connected_manager)
     = [StatusEv (status_at 0 CatOpenai
          (close_message 1006 ''unknown reason'') LevelError),
        emitStatus 0 CatError ''OpenAI disconnected'' LevelError,
        DisconnectedEv]
   \<and> state (fst (openai_socket_closed 0 1006 [] connected_manager)) = Connected"
proof -
  obtain c where c: "openaiClient connected_manager = Some c" "isConnected c"
    by (simp add: connected_manager_eq)
  show ?thesis
    using socket_close_always_disconnects [OF c(1), of 0 1006 "[]"] c
    by (simp add: connected_manager_eq)
qed

section \<open>Muting\<close>

lemma processAudio_muted: "isMuted ac \<Longrightarrow> processAudio math_sqrt now ac event = (ac, [])"
  by (simp add: processAudio_def Let_def)

lemma onaudioprocess_muted:
  "isMuted (audioCapture m) \<Longrightarrow> onaudioprocess math_sqrt now event m = (m, [])"
  by (simp add: onaudioprocess_def processAudio_muted)

lemma processAudio_unmuted:
  assumes "\<not> isMuted ac" "isCapturing ac" "analyser ac"
  shows "processAudio math_sqrt now ac event
    = (ac, AudioEv (convertToPCM16 (channelData event)) now
             (detectVoiceActivity math_sqrt ac (timeDomainData event))
           # (if detectVoiceActivity math_sqrt ac (timeDomainData event) then [VoiceDetected]
              else []))"
  using assms by (simp add: processAudio_def Let_def)

lemma onaudioprocess_forwards:
  assumes "\<not> isMuted (audioCapture m)" "isCapturing (audioCapture m)" "analyser (audioCapture m)"
    and "state m = Active" "openaiClient m = Some c" "isConnected c" "ws c = Some w"
    and "readyStateOpen w"
  shows "openaiClient (fst (onaudioprocess math_sqrt now event m))
    = Some (c\<lparr>ws := Some (w\<lparr>sentMessages := sentMessages w
        @ [InputAudioBufferAppend (btoa (convertToPCM16 (channelData event)))]\<rparr>)\<rparr>)"
  using assms
  by (simp add: onaudioprocess_def processAudio_unmuted on_capture_event_def on_audio_def
      openai_sendAudioData_def sendMessage_def)

lemma loud_frame_detected:
  "analyser ac \<Longrightarrow> voiceActivityThreshold (captureConfig ac) = round_binary64 (1 / 100)
    \<Longrightarrow> detectVoiceActivity (\<lambda>x. x) ac (timeDomainData loud_event)"
  by (simp add: detectVoiceActivity_def loud_event_def Let_def js_add_def js_sub_def
      js_mul_def js_div_def rb64_numeral rb64_neg_numeral rb64_one threshold_value)

text \<open>
  C1, as stated, fails: the pipeline does not emit \<open>audio\<close> regardless of the mute flag.
  With the microphone muted during an active session, a frame that the analyser classifies
  as voice produces no event at all, neither \<open>audio\<close> nor \<open>voiceDetected\<close>.
\<close>

theorem muted_frame_counterexample:
  "isCapturing (audioCapture muted_manager) \<and> isMuted (audioCapture muted_manager)
   \<and> detectVoiceActivity (\<lambda>x. x) (audioCapture muted_manager) (timeDomainData loud_event)
   \<and> processAudio (\<lambda>x. x) 5 (audioCapture muted_manager) loud_event
       = (audioCapture muted_manager, [])"
proof -
  have "detectVoiceActivity (\<lambda>x. x) (audioCapture muted_manager) (timeDomainData loud_event)"
    by (rule loud_frame_detected) (simp_all add: muted_capture new_AudioCapture_def)
  then show ?thesis
    by (simp add: processAudio_muted muted_capture)
qed

text \<open>
  C1, amended. The mute flag is checked by the capture pipeline itself: a frame captured
  while muted emits nothing (voice activity is computed and discarded), so it never
  reaches the speech client and the orchestrator is left as it was. A frame captured while
  not muted emits \<open>audio\<close> with the PCM16 bytes, the timestamp and the voice-activity
  flag, followed by \<open>voiceDetected\<close> when the flag is set; in an active session with a
  connected speech client the orchestrator sends exactly these bytes, base64-encoded, as
  \<open>input_audio_buffer.append\<close>.
\<close>

theorem mute_gates_the_emit:
  "(isMuted (audioCapture m) \<longrightarrow>
      snd (processAudio math_sqrt now (audioCapture m) event) = []
      \<and> onaudioprocess math_sqrt now event m = (m, []))
   \<and> (\<not> isMuted (audioCapture m) \<and> isCapturing (audioCapture m) \<and> analyser (audioCapture m) \<longrightarrow>
        snd (processAudio math_sqrt now (audioCapture m) event)
          = AudioEv (convertToPCM16 (channelData event)) now
              (detectVoiceActivity math_sqrt (audioCapture m) (timeDomainData event))
            # (if detectVoiceActivity math_sqrt (audioCapture m) (timeDomainData event)
               then [VoiceDetected] else [])
        \<and> (state m = Active \<and> openaiClient m = Some c \<and> isConnected c \<and> ws c = Some w
             \<and> readyStateOpen w \<longrightarrow>
             openaiClient (fst (onaudioprocess math_sqrt now event m))
               = Some (c\<lparr>ws := Some (w\<lparr>sentMessages := sentMessages w
                   @ [InputAudioBufferAppend (btoa (convertToPCM16 (channelData event)))]\<rparr>)\<rparr>)))"
  by (simp add: processAudio_muted onaudioprocess_muted processAudio_unmuted
      onaudioprocess_forwards)

theorem mute_gates_the_emit_witness:
  "isMuted (audioCapture muted_manager)
   \<and> onaudioprocess (\<lambda>x. x) 5 loud_event muted_manager = (muted_manager, [])
   \<and> \<not> isMuted (audioCapture active_manager) \<and> isCapturing (audioCapture active_manager)
   \<and> analyser (audioCapture active_manager) \<and> state active_manager = Active
   \<and> snd (processAudio (\<lambda>x. x) 5 (audioCapture active_manager) loud_event)
       = [AudioEv (convertToPCM16 (channelData loud_event)) 5 True, VoiceDetected]
   \<and> map_option (\<lambda>c. map_option sentMessages (ws c))
        (openaiClient (fst (onaudioprocess (\<lambda>x. x) 5 loud_event active_manager)))
       = Some (Some [InputAudioBufferAppend (btoa (convertToPCM16 (channelData loud_event)))])"
proof -
  have va: "detectVoiceActivity (\<lambda>x. x) (audioCapture active_manager) (timeDomainData loud_event)"
    by (rule loud_frame_detected) (simp_all add: active_capture new_AudioCapture_def)
  obtain c w where c: "openaiClient active_manager = Some c" "isConnected c" "ws c = Some w"
      "readyStateOpen w" "sentMessages w = []"
    by (simp add: active_manager_eq connected_manager_eq)
  have m: "isMuted (audioCapture muted_manager)" by (simp add: muted_capture)
  have a: "\<not> isMuted (audioCapture active_manager)" "isCapturing (audioCapture active_manager)"
      "analyser (audioCapture active_manager)" "state active_manager = Active"
    by (simp_all add: active_manager_eq new_AudioCapture_def)
  show ?thesis
    using mute_gates_the_emit [of muted_manager "\<lambda>x. x" 5 loud_event c w]
      mute_gates_the_emit [of active_manager "\<lambda>x. x" 5 loud_event c w] va c m a
    by simp
qed

section \<open>The audio relay to the avatar\<close>



lemma relay_drops_undecodable:
  "base64ToPCM16 delta = Inl e \<Longrightarrow> on_audioResponse (Some delta) m = m"
  by (simp add: on_audioResponse_def resampleFromBase64_unfold split: option.splits)







end
